theory Spec2Isabelle
  imports Main
begin

section \<open>Errors, pointers and the free store\<close>

text \<open>
  Everything that can end a call of \<^verbatim>\<open>vector.h\<close> other than a normal return is a
  value: \<open>BadAlloc\<close> is \<^verbatim>\<open>std::bad_alloc\<close> thrown by \<^verbatim>\<open>operator new\<close>,
  \<open>ElementThrow\<close> an exception thrown by a constructor or an assignment of the element
  type \<^verbatim>\<open>T\<close>, \<open>AssertionFailed\<close> a failed \<^verbatim>\<open>assert\<close> of the source, and
  \<open>Undefined\<close> a memory access that C++ leaves undefined (a slot outside an allocated
  block, an object that is not alive, an invalid iterator range).
\<close>

datatype error = BadAlloc | ElementThrow | AssertionFailed | Undefined

text \<open>
  A \<^verbatim>\<open>T*\<close> is null, or block \<open>a\<close> plus an offset counted in elements, or \<open>Wild\<close>:
  the result of pointer arithmetic that leaves every block (\<^verbatim>\<open>nullptr + 1\<close>,
  \<^verbatim>\<open>begin() - 1\<close>). Iterators of \<^verbatim>\<open>Vector\<close> are such pointers.
\<close>

datatype ptr = Null | Ptr nat nat | Wild

fun ptr_add :: "ptr \<Rightarrow> nat \<Rightarrow> ptr" where
  "ptr_add (Ptr a i) k = Ptr a (i + k)"
| "ptr_add Null k = (if k = 0 then Null else Wild)"
| "ptr_add Wild k = Wild"

fun ptr_sub :: "ptr \<Rightarrow> nat \<Rightarrow> ptr" where
  "ptr_sub (Ptr a i) k = (if k \<le> i then Ptr a (i - k) else Wild)"
| "ptr_sub Null k = (if k = 0 then Null else Wild)"
| "ptr_sub Wild k = Wild"

text \<open>
  \<^verbatim>\<open>p <= q\<close> on pointers. Pointers into different blocks compare in an unspecified
  way in C++; the model answers \<open>False\<close> there, so an \<^verbatim>\<open>assert\<close> over them fails.
\<close>

fun ptr_le :: "ptr \<Rightarrow> ptr \<Rightarrow> bool" where
  "ptr_le (Ptr a i) (Ptr b j) = (a = b \<and> i \<le> j)"
| "ptr_le Null Null = True"
| "ptr_le _ _ = False"

text \<open>\<^verbatim>\<open>std::distance(first, last)\<close>, called only where \<^verbatim>\<open>first <= last\<close> was asserted.\<close>

fun distance :: "ptr \<Rightarrow> ptr \<Rightarrow> nat" where
  "distance (Ptr a i) (Ptr b j) = j - i"
| "distance _ _ = 0"

text \<open>
  The free store is a list of blocks; the address of a block is its position in the list,
  so \<^verbatim>\<open>operator new\<close> always returns a fresh address. A slot of a block is \<open>None\<close>
  (raw, uninitialised storage) or \<open>Some x\<close> (a live object of type \<^verbatim>\<open>T\<close> with value
  \<open>x\<close>). \<open>budget\<close> is the number of slots \<^verbatim>\<open>operator new\<close> can still hand out;
  it is assumed small enough that \<^verbatim>\<open>n * sizeof(T)\<close> and \<^verbatim>\<open>Size() * 2\<close> never
  wrap around in \<^verbatim>\<open>size_t\<close>, so sizes are natural numbers; the one decrement that
  can wrap, in \<^verbatim>\<open>Erase\<close>, is written out there. \<open>constructed\<close> and
  \<open>destroyed\<close> are the counters of an instrumented element type: every constructor
  call and every destructor call made by the container bumps one of them.
\<close>

datatype 'a block = Freed | Block "'a option list"

record 'a heap =
  blocks :: "'a block list"
  budget :: nat
  constructed :: nat
  destroyed :: nat

definition slots_at :: "'a heap \<Rightarrow> nat \<Rightarrow> 'a option list option" where
  "slots_at h a =
     (if a < length (blocks h)
      then (case blocks h ! a of Freed \<Rightarrow> None | Block sl \<Rightarrow> Some sl)
      else None)"

fun valid :: "'a heap \<Rightarrow> ptr \<Rightarrow> bool" where
  "valid h (Ptr a i) = (case slots_at h a of None \<Rightarrow> False | Some sl \<Rightarrow> i < length sl)"
| "valid h Null = False"
| "valid h Wild = False"

fun deref :: "'a heap \<Rightarrow> ptr \<Rightarrow> 'a option" where
  "deref h (Ptr a i) =
     (case slots_at h a of None \<Rightarrow> None | Some sl \<Rightarrow> if i < length sl then sl ! i else None)"
| "deref h Null = None"
| "deref h Wild = None"

fun put :: "ptr \<Rightarrow> 'a option \<Rightarrow> 'a heap \<Rightarrow> 'a heap" where
  "put (Ptr a i) s h =
     (case slots_at h a of
        None \<Rightarrow> h
      | Some sl \<Rightarrow> h\<lparr>blocks := (blocks h)[a := Block (sl[i := s])]\<rparr>)"
| "put Null s h = h"
| "put Wild s h = h"

text \<open>
  \<^verbatim>\<open>operator new(n * sizeof(T))\<close> and \<^verbatim>\<open>operator delete(p)\<close>. Deleting null does
  nothing; deleting anything but the start of an allocated block is undefined. Deleting
  a block does not run any destructor: objects still alive in it are lost.
\<close>

definition operator_new :: "nat \<Rightarrow> 'a heap \<Rightarrow> (error + ptr) \<times> 'a heap" where
  "operator_new n h =
     (if budget h < n then (Inl BadAlloc, h)
      else (Inr (Ptr (length (blocks h)) 0),
            h\<lparr>blocks := blocks h @ [Block (replicate n None)], budget := budget h - n\<rparr>))"

fun operator_delete :: "ptr \<Rightarrow> 'a heap \<Rightarrow> (error + unit) \<times> 'a heap" where
  "operator_delete Null h = (Inr (), h)"
| "operator_delete (Ptr a i) h =
     (case slots_at h a of
        None \<Rightarrow> (Inl Undefined, h)
      | Some sl \<Rightarrow>
          if i = 0
          then (Inr (), h\<lparr>blocks := (blocks h)[a := Freed], budget := budget h + length sl\<rparr>)
          else (Inl Undefined, h))"
| "operator_delete Wild h = (Inl Undefined, h)"

text \<open>
  Placement new of a given value, \<^verbatim>\<open>std::destroy_at\<close>, and overwriting a live object.
  Placement new over a live object reuses its storage without running its destructor.
\<close>

definition construct_at :: "ptr \<Rightarrow> 'a \<Rightarrow> 'a heap \<Rightarrow> (error + unit) \<times> 'a heap" where
  "construct_at p x h =
     (if valid h p then (Inr (), (put p (Some x) h)\<lparr>constructed := constructed h + 1\<rparr>)
      else (Inl Undefined, h))"

definition destroy_at :: "ptr \<Rightarrow> 'a heap \<Rightarrow> (error + unit) \<times> 'a heap" where
  "destroy_at p h =
     (case deref h p of
        None \<Rightarrow> (Inl Undefined, h)
      | Some x \<Rightarrow> (Inr (), (put p None h)\<lparr>destroyed := destroyed h + 1\<rparr>))"

definition assign_at :: "ptr \<Rightarrow> 'a \<Rightarrow> 'a heap \<Rightarrow> (error + unit) \<times> 'a heap" where
  "assign_at p x h =
     (case deref h p of
        None \<Rightarrow> (Inl Undefined, h)
      | Some y \<Rightarrow> (Inr (), put p (Some x) h))"

section \<open>The element type\<close>

text \<open>
  The template parameter \<^verbatim>\<open>T\<close>: the two traits the source asks for with
  \<^verbatim>\<open>if constexpr\<close>, and the behaviour of its special member functions. A copy
  makes an equal object; a move makes an equal object and leaves the source in the state
  \<open>moved_from\<close>. Whether an operation throws is decided by the value it reads (the
  \<^verbatim>\<open>throw_on_copy\<close> flag of a test type); value-initialisation \<^verbatim>\<open>T()\<close> is
  decided by the number of objects constructed so far (a countdown of a test type), and
  \<open>None\<close> means that it throws. An operation that throws changes nothing.
\<close>

record 'a elem_type =
  nothrow_move_constructible :: bool
  copy_constructible :: bool
  value_init :: "nat \<Rightarrow> 'a option"
  copy_ctor_throws :: "'a \<Rightarrow> bool"
  move_ctor_throws :: "'a \<Rightarrow> bool"
  copy_assign_throws :: "'a \<Rightarrow> bool"
  move_assign_throws :: "'a \<Rightarrow> bool"
  moved_from :: "'a \<Rightarrow> 'a"

text \<open>\<^verbatim>\<open>new (dst) T(*src)\<close> and \<^verbatim>\<open>new (dst) T(std::move(*src))\<close>.\<close>

definition copy_construct ::
  "'a elem_type \<Rightarrow> ptr \<Rightarrow> ptr \<Rightarrow> 'a heap \<Rightarrow> (error + unit) \<times> 'a heap" where
  "copy_construct T dst src h =
     (case deref h src of
        None \<Rightarrow> (Inl Undefined, h)
      | Some x \<Rightarrow> if copy_ctor_throws T x then (Inl ElementThrow, h) else construct_at dst x h)"

definition move_construct ::
  "'a elem_type \<Rightarrow> ptr \<Rightarrow> ptr \<Rightarrow> 'a heap \<Rightarrow> (error + unit) \<times> 'a heap" where
  "move_construct T dst src h =
     (case deref h src of
        None \<Rightarrow> (Inl Undefined, h)
      | Some x \<Rightarrow>
          if move_ctor_throws T x then (Inl ElementThrow, h)
          else (case construct_at dst x h of
                  (Inl e, h1) \<Rightarrow> (Inl e, h1)
                | (Inr u, h1) \<Rightarrow> (Inr u, put src (Some (moved_from T x)) h1)))"

text \<open>\<^verbatim>\<open>*dst = *src\<close> and \<^verbatim>\<open>*dst = std::move(*src)\<close> on live objects.\<close>

definition copy_assign ::
  "'a elem_type \<Rightarrow> ptr \<Rightarrow> ptr \<Rightarrow> 'a heap \<Rightarrow> (error + unit) \<times> 'a heap" where
  "copy_assign T dst src h =
     (case deref h src of
        None \<Rightarrow> (Inl Undefined, h)
      | Some x \<Rightarrow> if copy_assign_throws T x then (Inl ElementThrow, h) else assign_at dst x h)"

definition move_assign ::
  "'a elem_type \<Rightarrow> ptr \<Rightarrow> ptr \<Rightarrow> 'a heap \<Rightarrow> (error + unit) \<times> 'a heap" where
  "move_assign T dst src h =
     (case deref h src of
        None \<Rightarrow> (Inl Undefined, h)
      | Some x \<Rightarrow>
          if move_assign_throws T x then (Inl ElementThrow, h)
          else (case assign_at dst x h of
                  (Inl e, h1) \<Rightarrow> (Inl e, h1)
                | (Inr u, h1) \<Rightarrow> (Inr u, put src (Some (moved_from T x)) h1)))"

text \<open>
  \<^verbatim>\<open>new (dst) T(std::forward<Args>(args)...)\<close>. The arguments are given by what the
  constructor makes of them: \<open>Some x\<close> when it builds the value \<open>x\<close>, \<open>None\<close> when it
  throws. All three places of the source that construct from \<^verbatim>\<open>args\<close> do so before
  they touch an existing element, so arguments that refer to an element of the vector
  are read in time.
\<close>

definition construct_from :: "'a option \<Rightarrow> ptr \<Rightarrow> 'a heap \<Rightarrow> (error + unit) \<times> 'a heap" where
  "construct_from args dst h =
     (case args of None \<Rightarrow> (Inl ElementThrow, h) | Some x \<Rightarrow> construct_at dst x h)"

section \<open>The algorithms of the standard library the source calls\<close>

text \<open>
  \<^verbatim>\<open>std::uninitialized_copy_n\<close>, \<^verbatim>\<open>std::uninitialized_move_n\<close> and
  \<^verbatim>\<open>std::uninitialized_value_construct_n\<close> construct \<open>n\<close> objects front to back;
  when a construction throws they destroy the objects they have constructed and rethrow.
\<close>

fun uninitialized_copy_n ::
  "'a elem_type \<Rightarrow> ptr \<Rightarrow> nat \<Rightarrow> ptr \<Rightarrow> 'a heap \<Rightarrow> (error + unit) \<times> 'a heap" where
  "uninitialized_copy_n T first 0 dst h = (Inr (), h)"
| "uninitialized_copy_n T first (Suc n) dst h =
     (case copy_construct T dst first h of
        (Inl e, h1) \<Rightarrow> (Inl e, h1)
      | (Inr u, h1) \<Rightarrow>
          (case uninitialized_copy_n T (ptr_add first 1) n (ptr_add dst 1) h1 of
             (Inl e, h2) \<Rightarrow> (Inl e, snd (destroy_at dst h2))
           | (Inr u, h2) \<Rightarrow> (Inr u, h2)))"

fun uninitialized_move_n ::
  "'a elem_type \<Rightarrow> ptr \<Rightarrow> nat \<Rightarrow> ptr \<Rightarrow> 'a heap \<Rightarrow> (error + unit) \<times> 'a heap" where
  "uninitialized_move_n T first 0 dst h = (Inr (), h)"
| "uninitialized_move_n T first (Suc n) dst h =
     (case move_construct T dst first h of
        (Inl e, h1) \<Rightarrow> (Inl e, h1)
      | (Inr u, h1) \<Rightarrow>
          (case uninitialized_move_n T (ptr_add first 1) n (ptr_add dst 1) h1 of
             (Inl e, h2) \<Rightarrow> (Inl e, snd (destroy_at dst h2))
           | (Inr u, h2) \<Rightarrow> (Inr u, h2)))"

fun uninitialized_value_construct_n ::
  "'a elem_type \<Rightarrow> ptr \<Rightarrow> nat \<Rightarrow> 'a heap \<Rightarrow> (error + unit) \<times> 'a heap" where
  "uninitialized_value_construct_n T first 0 h = (Inr (), h)"
| "uninitialized_value_construct_n T first (Suc n) h =
     (case construct_from (value_init T (constructed h)) first h of
        (Inl e, h1) \<Rightarrow> (Inl e, h1)
      | (Inr u, h1) \<Rightarrow>
          (case uninitialized_value_construct_n T (ptr_add first 1) n h1 of
             (Inl e, h2) \<Rightarrow> (Inl e, snd (destroy_at first h2))
           | (Inr u, h2) \<Rightarrow> (Inr u, h2)))"

text \<open>\<^verbatim>\<open>std::destroy_n\<close>; destructors do not throw.\<close>

fun destroy_n :: "ptr \<Rightarrow> nat \<Rightarrow> 'a heap \<Rightarrow> (error + unit) \<times> 'a heap" where
  "destroy_n first 0 h = (Inr (), h)"
| "destroy_n first (Suc n) h =
     (case destroy_at first h of
        (Inl e, h1) \<Rightarrow> (Inl e, h1)
      | (Inr u, h1) \<Rightarrow> destroy_n (ptr_add first 1) n h1)"

text \<open>\<^verbatim>\<open>std::copy_n\<close>: copy assignment front to back, nothing undone on a throw.\<close>

fun copy_n ::
  "'a elem_type \<Rightarrow> ptr \<Rightarrow> nat \<Rightarrow> ptr \<Rightarrow> 'a heap \<Rightarrow> (error + unit) \<times> 'a heap" where
  "copy_n T first 0 dst h = (Inr (), h)"
| "copy_n T first (Suc n) dst h =
     (case copy_assign T dst first h of
        (Inl e, h1) \<Rightarrow> (Inl e, h1)
      | (Inr u, h1) \<Rightarrow> copy_n T (ptr_add first 1) n (ptr_add dst 1) h1)"

text \<open>
  \<^verbatim>\<open>std::move(first, last, d_first)\<close> over move iterators and
  \<^verbatim>\<open>std::move_backward(first, last, d_last)\<close>: move assignment, front to back and
  back to front. \<^verbatim>\<open>Erase\<close> at \<^verbatim>\<open>pos == end()\<close> calls \<^verbatim>\<open>std::move\<close> with
  \<^verbatim>\<open>first\<close> one step past \<^verbatim>\<open>last\<close>: the loop of the library counts
  \<^verbatim>\<open>last - first\<close> down while it is positive, so it moves nothing there. Every other
  range with \<^verbatim>\<open>last\<close> before \<^verbatim>\<open>first\<close> is undefined.
\<close>

fun move_n ::
  "'a elem_type \<Rightarrow> ptr \<Rightarrow> nat \<Rightarrow> ptr \<Rightarrow> 'a heap \<Rightarrow> (error + unit) \<times> 'a heap" where
  "move_n T first 0 dst h = (Inr (), h)"
| "move_n T first (Suc n) dst h =
     (case move_assign T dst first h of
        (Inl e, h1) \<Rightarrow> (Inl e, h1)
      | (Inr u, h1) \<Rightarrow> move_n T (ptr_add first 1) n (ptr_add dst 1) h1)"

definition std_move ::
  "'a elem_type \<Rightarrow> ptr \<Rightarrow> ptr \<Rightarrow> ptr \<Rightarrow> 'a heap \<Rightarrow> (error + unit) \<times> 'a heap" where
  "std_move T first lastp dst h =
     (if ptr_le first lastp then move_n T first (distance first lastp) dst h
      else if first = ptr_add lastp 1 then (Inr (), h)
      else (Inl Undefined, h))"

fun move_backward_n ::
  "'a elem_type \<Rightarrow> ptr \<Rightarrow> nat \<Rightarrow> ptr \<Rightarrow> 'a heap \<Rightarrow> (error + unit) \<times> 'a heap" where
  "move_backward_n T first 0 d_last h = (Inr (), h)"
| "move_backward_n T first (Suc n) d_last h =
     (case move_assign T (ptr_sub d_last 1) (ptr_add first n) h of
        (Inl e, h1) \<Rightarrow> (Inl e, h1)
      | (Inr u, h1) \<Rightarrow> move_backward_n T first n (ptr_sub d_last 1) h1)"

definition std_move_backward ::
  "'a elem_type \<Rightarrow> ptr \<Rightarrow> ptr \<Rightarrow> ptr \<Rightarrow> 'a heap \<Rightarrow> (error + unit) \<times> 'a heap" where
  "std_move_backward T first lastp d_last h =
     (if ptr_le first lastp then move_backward_n T first (distance first lastp) d_last h
      else (Inl Undefined, h))"

section \<open>RawMemory\<close>

text \<open>
  The members \<^verbatim>\<open>buffer_\<close> and \<^verbatim>\<open>capacity_\<close> (a name may not end in an underscore
  here, hence the suffix).
\<close>

record RawMemory =
  buffer_m :: ptr
  capacity_m :: nat

definition Allocate :: "nat \<Rightarrow> 'a heap \<Rightarrow> (error + ptr) \<times> 'a heap" where
  "Allocate n h = (if n \<noteq> 0 then operator_new n h else (Inr Null, h))"

definition Deallocate :: "ptr \<Rightarrow> 'a heap \<Rightarrow> (error + unit) \<times> 'a heap" where
  "Deallocate buf h = operator_delete buf h"

text \<open>\<^verbatim>\<open>RawMemory() = default\<close>, with the default member initialisers.\<close>

definition RawMemory_default :: RawMemory where
  "RawMemory_default = \<lparr>buffer_m = Null, capacity_m = 0\<rparr>"

text \<open>\<^verbatim>\<open>explicit RawMemory(size_t capacity)\<close>.\<close>

definition RawMemory_sized :: "nat \<Rightarrow> 'a heap \<Rightarrow> (error + RawMemory) \<times> 'a heap" where
  "RawMemory_sized capacity h =
     (case Allocate capacity h of
        (Inl e, h1) \<Rightarrow> (Inl e, h1)
      | (Inr p, h1) \<Rightarrow> (Inr \<lparr>buffer_m = p, capacity_m = capacity\<rparr>, h1))"

text \<open>
  \<^verbatim>\<open>RawMemory(RawMemory&& other)\<close>: the new object starts from the default member
  initialisers, deallocates its own (null) buffer and takes the other's members with
  \<^verbatim>\<open>std::exchange\<close>. The result is the new object and what is left of \<open>other\<close>.
\<close>

definition RawMemory_move_ctor ::
  "RawMemory \<Rightarrow> 'a heap \<Rightarrow> (error + RawMemory \<times> RawMemory) \<times> 'a heap" where
  "RawMemory_move_ctor other h =
     (let this = RawMemory_default in
      case Deallocate (buffer_m this) h of
        (Inl e, h1) \<Rightarrow> (Inl e, h1)
      | (Inr u, h1) \<Rightarrow>
          (let this1 = this\<lparr>buffer_m := buffer_m other\<rparr>;
               other1 = other\<lparr>buffer_m := Null\<rparr>;
               this2 = this1\<lparr>capacity_m := capacity_m other1\<rparr>;
               other2 = other1\<lparr>capacity_m := 0\<rparr>
           in (Inr (this2, other2), h1)))"

text \<open>
  \<^verbatim>\<open>RawMemory& operator=(RawMemory&& rhs)\<close>. The two objects are named by their
  positions \<open>this\<close> and \<open>rhs\<close> in a list of objects, so that \<^verbatim>\<open>*this\<close> and
  \<^verbatim>\<open>rhs\<close> may be one object; each \<^verbatim>\<open>std::exchange\<close> reads \<open>rhs\<close>, overwrites it,
  then writes \<open>this\<close>. The free store is not touched.
\<close>

definition RawMemory_move_assign :: "nat \<Rightarrow> nat \<Rightarrow> RawMemory list \<Rightarrow> RawMemory list" where
  "RawMemory_move_assign this rhs ms =
     (let b = buffer_m (ms ! rhs);
          ms1 = ms[rhs := (ms ! rhs)\<lparr>buffer_m := Null\<rparr>];
          ms2 = ms1[this := (ms1 ! this)\<lparr>buffer_m := b\<rparr>];
          c = capacity_m (ms2 ! rhs);
          ms3 = ms2[rhs := (ms2 ! rhs)\<lparr>capacity_m := 0\<rparr>];
          ms4 = ms3[this := (ms3 ! this)\<lparr>capacity_m := c\<rparr>]
      in ms4)"

text \<open>\<^verbatim>\<open>~RawMemory()\<close>.\<close>

definition RawMemory_dtor :: "RawMemory \<Rightarrow> 'a heap \<Rightarrow> (error + unit) \<times> 'a heap" where
  "RawMemory_dtor m h = Deallocate (buffer_m m) h"

text \<open>\<^verbatim>\<open>operator+\<close> and \<^verbatim>\<open>operator[]\<close> (a reference is the address of its slot).\<close>

definition RawMemory_plus :: "RawMemory \<Rightarrow> nat \<Rightarrow> error + ptr" where
  "RawMemory_plus m offset =
     (if offset \<le> capacity_m m then Inr (ptr_add (buffer_m m) offset) else Inl AssertionFailed)"

definition RawMemory_index :: "RawMemory \<Rightarrow> nat \<Rightarrow> error + ptr" where
  "RawMemory_index m index =
     (if index < capacity_m m then Inr (ptr_add (buffer_m m) index) else Inl AssertionFailed)"

text \<open>\<^verbatim>\<open>a.Swap(b)\<close> on two objects: the new \<open>a\<close> and the new \<open>b\<close>.\<close>

definition RawMemory_Swap :: "RawMemory \<Rightarrow> RawMemory \<Rightarrow> RawMemory \<times> RawMemory" where
  "RawMemory_Swap m other =
     (\<lparr>buffer_m = buffer_m other, capacity_m = capacity_m other\<rparr>,
      \<lparr>buffer_m = buffer_m m, capacity_m = capacity_m m\<rparr>)"

definition GetAddress :: "RawMemory \<Rightarrow> ptr" where
  "GetAddress m = buffer_m m"

definition RawMemory_Capacity :: "RawMemory \<Rightarrow> nat" where
  "RawMemory_Capacity m = capacity_m m"

section \<open>Vector: construction, destruction, observers\<close>

record Vector =
  data_m :: RawMemory
  size_m :: nat

definition Vector_default :: Vector where
  "Vector_default = \<lparr>data_m = RawMemory_default, size_m = 0\<rparr>"

definition Vector_begin :: "Vector \<Rightarrow> ptr" where
  "Vector_begin v = GetAddress (data_m v)"

definition Vector_end :: "Vector \<Rightarrow> ptr" where
  "Vector_end v = ptr_add (GetAddress (data_m v)) (size_m v)"

definition Size :: "Vector \<Rightarrow> nat" where
  "Size v = size_m v"

definition Capacity :: "Vector \<Rightarrow> nat" where
  "Capacity v = RawMemory_Capacity (data_m v)"

text \<open>
  \<^verbatim>\<open>explicit Vector(size_t size)\<close> and \<^verbatim>\<open>Vector(const Vector& other)\<close>. When the
  body throws, the object was never completed: its destructor does not run, the
  destructor of the member \<^verbatim>\<open>data_\<close> does.
\<close>

definition Vector_sized :: "'a elem_type \<Rightarrow> nat \<Rightarrow> 'a heap \<Rightarrow> (error + Vector) \<times> 'a heap" where
  "Vector_sized T n h =
     (case RawMemory_sized n h of
        (Inl e, h1) \<Rightarrow> (Inl e, h1)
      | (Inr d, h1) \<Rightarrow>
          (case uninitialized_value_construct_n T (GetAddress d) n h1 of
             (Inl e, h2) \<Rightarrow> (Inl e, snd (RawMemory_dtor d h2))
           | (Inr u, h2) \<Rightarrow> (Inr \<lparr>data_m = d, size_m = n\<rparr>, h2)))"

definition Vector_copy_ctor ::
  "'a elem_type \<Rightarrow> Vector \<Rightarrow> 'a heap \<Rightarrow> (error + Vector) \<times> 'a heap" where
  "Vector_copy_ctor T other h =
     (case RawMemory_sized (size_m other) h of
        (Inl e, h1) \<Rightarrow> (Inl e, h1)
      | (Inr d, h1) \<Rightarrow>
          (case uninitialized_copy_n T (GetAddress (data_m other)) (size_m other) (GetAddress d) h1 of
             (Inl e, h2) \<Rightarrow> (Inl e, snd (RawMemory_dtor d h2))
           | (Inr u, h2) \<Rightarrow> (Inr \<lparr>data_m = d, size_m = size_m other\<rparr>, h2)))"

text \<open>
  \<^verbatim>\<open>Vector(Vector&& other)\<close>: \<^verbatim>\<open>data_\<close> is default-initialised and then
  move-assigned; the result is the new object and what is left of \<open>other\<close>.
\<close>

definition Vector_move_ctor :: "Vector \<Rightarrow> Vector \<times> Vector" where
  "Vector_move_ctor other =
     (let ms = RawMemory_move_assign 0 1 [RawMemory_default, data_m other]
      in (\<lparr>data_m = ms ! 0, size_m = size_m other\<rparr>, \<lparr>data_m = ms ! 1, size_m = 0\<rparr>))"

text \<open>\<^verbatim>\<open>~Vector()\<close>, followed by the destructor of the member \<^verbatim>\<open>data_\<close>.\<close>

definition Vector_dtor :: "Vector \<Rightarrow> 'a heap \<Rightarrow> (error + unit) \<times> 'a heap" where
  "Vector_dtor v h =
     (case destroy_n (GetAddress (data_m v)) (size_m v) h of
        (Inl e, h1) \<Rightarrow> (Inl e, h1)
      | (Inr u, h1) \<Rightarrow> RawMemory_dtor (data_m v) h1)"

text \<open>\<^verbatim>\<open>T& operator[](size_t index)\<close>.\<close>

definition Vector_index :: "Vector \<Rightarrow> nat \<Rightarrow> error + ptr" where
  "Vector_index v index =
     (if index < Size v then RawMemory_index (data_m v) index else Inl AssertionFailed)"

section \<open>Vector: the member functions on one object\<close>

text \<open>
  A member function takes the object \<^verbatim>\<open>*this\<close> and the free store and returns its
  result (or the error), the object and the free store. A local \<^verbatim>\<open>RawMemory\<close> is
  destroyed at the end of its scope, also when an exception passes through it.
\<close>

definition Reserve ::
  "'a elem_type \<Rightarrow> nat \<Rightarrow> Vector \<Rightarrow> 'a heap \<Rightarrow> (error + unit) \<times> Vector \<times> 'a heap" where
  "Reserve T new_capacity v h =
     (if new_capacity \<le> Capacity v then (Inr (), v, h)
      else
        (case RawMemory_sized new_capacity h of
           (Inl e, h1) \<Rightarrow> (Inl e, v, h1)
         | (Inr new_data, h1) \<Rightarrow>
             (case (if nothrow_move_constructible T \<or> \<not> copy_constructible T
                    then uninitialized_move_n T (Vector_begin v) (Size v) (GetAddress new_data) h1
                    else uninitialized_copy_n T (Vector_begin v) (Size v) (GetAddress new_data) h1) of
                (Inl e, h2) \<Rightarrow> (Inl e, v, snd (RawMemory_dtor new_data h2))
              | (Inr u, h2) \<Rightarrow>
                  (case destroy_n (Vector_begin v) (Size v) h2 of
                     (Inl e, h3) \<Rightarrow> (Inl e, v, snd (RawMemory_dtor new_data h3))
                   | (Inr u, h3) \<Rightarrow>
                       (case RawMemory_Swap (data_m v) new_data of
                          (d, nd) \<Rightarrow>
                            (case RawMemory_dtor nd h3 of
                               (r, h4) \<Rightarrow> (r, v\<lparr>data_m := d\<rparr>, h4)))))))"

definition Resize ::
  "'a elem_type \<Rightarrow> nat \<Rightarrow> Vector \<Rightarrow> 'a heap \<Rightarrow> (error + unit) \<times> Vector \<times> 'a heap" where
  "Resize T new_size v h =
     (if new_size > Size v
      then
        (case Reserve T new_size v h of
           (Inl e, v1, h1) \<Rightarrow> (Inl e, v1, h1)
         | (Inr u, v1, h1) \<Rightarrow>
             (case uninitialized_value_construct_n T
                     (ptr_add (GetAddress (data_m v1)) (Size v1)) (new_size - Size v1) h1 of
                (Inl e, h2) \<Rightarrow> (Inl e, v1, h2)
              | (Inr u, h2) \<Rightarrow> (Inr (), v1\<lparr>size_m := new_size\<rparr>, h2)))
      else
        (case destroy_n (ptr_add (GetAddress (data_m v)) new_size) (Size v - new_size) h of
           (Inl e, h1) \<Rightarrow> (Inl e, v, h1)
         | (Inr u, h1) \<Rightarrow> (Inr (), v\<lparr>size_m := new_size\<rparr>, h1)))"

definition PopBack :: "Vector \<Rightarrow> 'a heap \<Rightarrow> (error + unit) \<times> Vector \<times> 'a heap" where
  "PopBack v h =
     (if Size v > 0
      then
        (case destroy_at (ptr_sub (Vector_end v) 1) h of
           (Inl e, h1) \<Rightarrow> (Inl e, v, h1)
         | (Inr u, h1) \<Rightarrow> (Inr (), v\<lparr>size_m := size_m v - 1\<rparr>, h1))
      else (Inr (), v, h))"

text \<open>
  \<^verbatim>\<open>EmplaceWithDataRelocation\<close>. Its only caller has asserted \<^verbatim>\<open>pos <= end()\<close>,
  so \<^verbatim>\<open>Size() - index\<close> does not wrap. Nothing in the source catches an exception
  here: when a transfer throws, the only clean-up is the one the standard algorithm does
  for its own range and the release of \<^verbatim>\<open>new_data\<close>.
\<close>

definition EmplaceWithDataRelocation ::
  "'a elem_type \<Rightarrow> ptr \<Rightarrow> nat \<Rightarrow> 'a option \<Rightarrow> Vector \<Rightarrow> 'a heap
     \<Rightarrow> (error + unit) \<times> Vector \<times> 'a heap" where
  "EmplaceWithDataRelocation T pos index args v h =
     (case RawMemory_sized (if Size v = 0 then 1 else Size v * 2) h of
        (Inl e, h1) \<Rightarrow> (Inl e, v, h1)
      | (Inr new_data, h1) \<Rightarrow>
          (case RawMemory_plus new_data index of
             Inl e \<Rightarrow> (Inl e, v, snd (RawMemory_dtor new_data h1))
           | Inr p \<Rightarrow>
               (case construct_from args p h1 of
                  (Inl e, h2) \<Rightarrow> (Inl e, v, snd (RawMemory_dtor new_data h2))
                | (Inr u, h2) \<Rightarrow>
                    (case (if nothrow_move_constructible T \<or> \<not> copy_constructible T
                           then
                             (case uninitialized_move_n T (Vector_begin v) index
                                     (GetAddress new_data) h2 of
                                (Inl e, h3) \<Rightarrow> (Inl e, h3)
                              | (Inr u, h3) \<Rightarrow>
                                  uninitialized_move_n T pos (Size v - index)
                                    (ptr_add (ptr_add (GetAddress new_data) index) 1) h3)
                           else
                             (case uninitialized_copy_n T (Vector_begin v) index
                                     (GetAddress new_data) h2 of
                                (Inl e, h3) \<Rightarrow> (Inl e, h3)
                              | (Inr u, h3) \<Rightarrow>
                                  uninitialized_copy_n T pos (Size v - index)
                                    (ptr_add (ptr_add (GetAddress new_data) index) 1) h3)) of
                       (Inl e, h4) \<Rightarrow> (Inl e, v, snd (RawMemory_dtor new_data h4))
                     | (Inr u, h4) \<Rightarrow>
                         (case destroy_n (Vector_begin v) (Size v) h4 of
                            (Inl e, h5) \<Rightarrow> (Inl e, v, snd (RawMemory_dtor new_data h5))
                          | (Inr u, h5) \<Rightarrow>
                              (case RawMemory_Swap (data_m v) new_data of
                                 (d, nd) \<Rightarrow>
                                   (case RawMemory_dtor nd h5 of
                                      (r, h6) \<Rightarrow> (r, v\<lparr>data_m := d\<rparr>, h6))))))))"

text \<open>
  \<^verbatim>\<open>EmplaceWithoutDataRelocation\<close>. \<^verbatim>\<open>temp_obj\<close> is a local object of type
  \<^verbatim>\<open>T\<close>: its construction and its destruction at the end of the block (also during
  unwinding) are counted, its value is \<open>temp_obj\<close>.
\<close>

definition EmplaceWithoutDataRelocation ::
  "'a elem_type \<Rightarrow> ptr \<Rightarrow> nat \<Rightarrow> 'a option \<Rightarrow> Vector \<Rightarrow> 'a heap
     \<Rightarrow> (error + unit) \<times> Vector \<times> 'a heap" where
  "EmplaceWithoutDataRelocation T pos index args v h =
     (if Vector_end v \<noteq> pos
      then
        (case args of
           None \<Rightarrow> (Inl ElementThrow, v, h)
         | Some temp_obj \<Rightarrow>
             (case (case RawMemory_plus (data_m v) (size_m v) of
                      Inl e \<Rightarrow> (Inl e, h\<lparr>constructed := constructed h + 1\<rparr>)
                    | Inr p \<Rightarrow>
                        (case move_construct T p (ptr_sub (Vector_end v) 1)
                                (h\<lparr>constructed := constructed h + 1\<rparr>) of
                           (Inl e, h1) \<Rightarrow> (Inl e, h1)
                         | (Inr u, h1) \<Rightarrow>
                             (case std_move_backward T pos (ptr_sub (Vector_end v) 1)
                                     (Vector_end v) h1 of
                                (Inl e, h2) \<Rightarrow> (Inl e, h2)
                              | (Inr u, h2) \<Rightarrow>
                                  (case RawMemory_index (data_m v) index of
                                     Inl e \<Rightarrow> (Inl e, h2)
                                   | Inr q \<Rightarrow>
                                       if move_assign_throws T temp_obj
                                       then (Inl ElementThrow, h2)
                                       else assign_at q temp_obj h2)))) of
                (r, h3) \<Rightarrow> (r, v, h3\<lparr>destroyed := destroyed h3 + 1\<rparr>)))
      else
        (case RawMemory_plus (data_m v) index of
           Inl e \<Rightarrow> (Inl e, v, h)
         | Inr p \<Rightarrow> (case construct_from args p h of (r, h1) \<Rightarrow> (r, v, h1))))"

text \<open>\<^verbatim>\<open>Emplace\<close>: the result is the iterator \<^verbatim>\<open>begin() + index\<close>.\<close>

definition Emplace ::
  "'a elem_type \<Rightarrow> ptr \<Rightarrow> 'a option \<Rightarrow> Vector \<Rightarrow> 'a heap \<Rightarrow> (error + ptr) \<times> Vector \<times> 'a heap" where
  "Emplace T pos args v h =
     (if \<not> (ptr_le (Vector_begin v) pos \<and> ptr_le pos (Vector_end v))
      then (Inl AssertionFailed, v, h)
      else
        (let index = distance (Vector_begin v) pos in
         case (if Size v = Capacity v
               then EmplaceWithDataRelocation T pos index args v h
               else EmplaceWithoutDataRelocation T pos index args v h) of
           (Inl e, v1, h1) \<Rightarrow> (Inl e, v1, h1)
         | (Inr u, v1, h1) \<Rightarrow>
             (let v2 = v1\<lparr>size_m := size_m v1 + 1\<rparr>
              in (Inr (ptr_add (Vector_begin v2) index), v2, h1))))"

text \<open>
  \<^verbatim>\<open>Insert\<close>, \<^verbatim>\<open>EmplaceBack\<close> and \<^verbatim>\<open>PushBack\<close>, each with its overload for
  \<^verbatim>\<open>const T&\<close> and for \<^verbatim>\<open>T&&\<close>: the new element is built by the copy or by the move
  constructor from the caller's object \<open>x\<close>.
\<close>

definition copy_of :: "'a elem_type \<Rightarrow> 'a \<Rightarrow> 'a option" where
  "copy_of T x = (if copy_ctor_throws T x then None else Some x)"

definition move_of :: "'a elem_type \<Rightarrow> 'a \<Rightarrow> 'a option" where
  "move_of T x = (if move_ctor_throws T x then None else Some x)"

definition Insert ::
  "'a elem_type \<Rightarrow> ptr \<Rightarrow> 'a \<Rightarrow> Vector \<Rightarrow> 'a heap \<Rightarrow> (error + ptr) \<times> Vector \<times> 'a heap" where
  "Insert T pos x v h = Emplace T pos (copy_of T x) v h"

definition Insert_move ::
  "'a elem_type \<Rightarrow> ptr \<Rightarrow> 'a \<Rightarrow> Vector \<Rightarrow> 'a heap \<Rightarrow> (error + ptr) \<times> Vector \<times> 'a heap" where
  "Insert_move T pos x v h = Emplace T pos (move_of T x) v h"

definition EmplaceBack ::
  "'a elem_type \<Rightarrow> 'a option \<Rightarrow> Vector \<Rightarrow> 'a heap \<Rightarrow> (error + ptr) \<times> Vector \<times> 'a heap" where
  "EmplaceBack T args v h = Emplace T (Vector_end v) args v h"

definition PushBack ::
  "'a elem_type \<Rightarrow> 'a \<Rightarrow> Vector \<Rightarrow> 'a heap \<Rightarrow> (error + unit) \<times> Vector \<times> 'a heap" where
  "PushBack T x v h =
     (case EmplaceBack T (copy_of T x) v h of
        (Inl e, v1, h1) \<Rightarrow> (Inl e, v1, h1)
      | (Inr r, v1, h1) \<Rightarrow> (Inr (), v1, h1))"

definition PushBack_move ::
  "'a elem_type \<Rightarrow> 'a \<Rightarrow> Vector \<Rightarrow> 'a heap \<Rightarrow> (error + unit) \<times> Vector \<times> 'a heap" where
  "PushBack_move T x v h =
     (case EmplaceBack T (move_of T x) v h of
        (Inl e, v1, h1) \<Rightarrow> (Inl e, v1, h1)
      | (Inr r, v1, h1) \<Rightarrow> (Inr (), v1, h1))"

text \<open>
  \<^verbatim>\<open>Erase\<close>. Its \<^verbatim>\<open>assert\<close> admits \<^verbatim>\<open>pos == end()\<close>, and nothing after it
  looks at the size. At \<^verbatim>\<open>pos == end()\<close> no element is moved and
  \<^verbatim>\<open>std::destroy_at(end() - 1)\<close> destroys the last element. On an empty vector
  \<^verbatim>\<open>end() - 1\<close> lies before the storage: the destructor runs there on bytes that hold
  no object of the vector, which moves the counter of destructor calls and no slot of the
  free store; and \<^verbatim>\<open>--size_\<close> wraps around to the largest \<^verbatim>\<open>size_t\<close>, taken to
  be of 64 bits.
\<close>

definition SIZE_MAX :: nat where
  "SIZE_MAX = 2 ^ 64 - 1"

definition Erase ::
  "'a elem_type \<Rightarrow> ptr \<Rightarrow> Vector \<Rightarrow> 'a heap \<Rightarrow> (error + ptr) \<times> Vector \<times> 'a heap" where
  "Erase T pos v h =
     (if \<not> (ptr_le (Vector_begin v) pos \<and> ptr_le pos (Vector_end v))
      then (Inl AssertionFailed, v, h)
      else
        (let index = distance (Vector_begin v) pos in
         case std_move T (ptr_add pos 1) (Vector_end v) pos h of
           (Inl e, h1) \<Rightarrow> (Inl e, v, h1)
         | (Inr u, h1) \<Rightarrow>
             (case (if Size v = 0 then (Inr (), h1\<lparr>destroyed := destroyed h1 + 1\<rparr>)
                    else destroy_at (ptr_sub (Vector_end v) 1) h1) of
                (Inl e, h2) \<Rightarrow> (Inl e, v, h2)
              | (Inr u, h2) \<Rightarrow>
                  (let v1 = v\<lparr>size_m := (if size_m v = 0 then SIZE_MAX else size_m v - 1)\<rparr>
                   in (Inr (ptr_add (Vector_begin v1) index), v1, h2)))))"

text \<open>\<^verbatim>\<open>a.Swap(b)\<close> on two objects: the new \<open>a\<close> and the new \<open>b\<close>.\<close>

definition Swap :: "Vector \<Rightarrow> Vector \<Rightarrow> Vector \<times> Vector" where
  "Swap v other =
     (case RawMemory_Swap (data_m v) (data_m other) of
        (d, od) \<Rightarrow> (\<lparr>data_m = d, size_m = size_m other\<rparr>, \<lparr>data_m = od, size_m = size_m v\<rparr>))"

section \<open>Vector: the member functions on two objects\<close>

text \<open>
  The assignment operators and \<^verbatim>\<open>Swap\<close> take a second \<^verbatim>\<open>Vector\<close> by reference,
  which may be the object itself. The objects of the program are a list; \<open>this\<close> and
  \<open>rhs\<close> are positions in it, and \<^verbatim>\<open>this != &rhs\<close> compares the positions. The
  local \<^verbatim>\<open>rhs_copy\<close> of copy assignment is destroyed at the end of its block.
\<close>

definition Vector_copy_assign ::
  "'a elem_type \<Rightarrow> nat \<Rightarrow> nat \<Rightarrow> Vector list \<Rightarrow> 'a heap
     \<Rightarrow> (error + unit) \<times> Vector list \<times> 'a heap" where
  "Vector_copy_assign T this rhs vs h =
     (if this \<noteq> rhs
      then
        (if Size (vs ! rhs) > Capacity (vs ! this)
         then
           (case Vector_copy_ctor T (vs ! rhs) h of
              (Inl e, h1) \<Rightarrow> (Inl e, vs, h1)
            | (Inr rhs_copy, h1) \<Rightarrow>
                (case Swap (vs ! this) rhs_copy of
                   (v1, rhs_copy1) \<Rightarrow>
                     (case Vector_dtor rhs_copy1 h1 of
                        (r, h2) \<Rightarrow> (r, vs[this := v1], h2))))
         else
           (let min_size = min (Size (vs ! rhs)) (Size (vs ! this)) in
            case copy_n T (Vector_begin (vs ! rhs)) min_size (Vector_begin (vs ! this)) h of
              (Inl e, h1) \<Rightarrow> (Inl e, vs, h1)
            | (Inr u, h1) \<Rightarrow>
                (case (if Size (vs ! rhs) = min_size
                       then destroy_n (ptr_add (Vector_begin (vs ! this)) (Size (vs ! rhs)))
                              (Size (vs ! this) - Size (vs ! rhs)) h1
                       else uninitialized_copy_n T
                              (ptr_add (Vector_begin (vs ! rhs)) (Size (vs ! this)))
                              (Size (vs ! rhs) - Size (vs ! this))
                              (ptr_add (Vector_begin (vs ! this)) (Size (vs ! this))) h1) of
                   (Inl e, h2) \<Rightarrow> (Inl e, vs, h2)
                 | (Inr u, h2) \<Rightarrow>
                     (Inr (), vs[this := (vs ! this)\<lparr>size_m := Size (vs ! rhs)\<rparr>], h2))))
      else (Inr (), vs, h))"

text \<open>
  \<^verbatim>\<open>Vector& operator=(Vector&& rhs)\<close>: the \<^verbatim>\<open>data_\<close> members are move-assigned,
  then \<^verbatim>\<open>size_\<close> is exchanged. No element is destroyed and the free store is not
  touched.
\<close>

definition Vector_move_assign :: "nat \<Rightarrow> nat \<Rightarrow> Vector list \<Rightarrow> Vector list" where
  "Vector_move_assign this rhs vs =
     (let ms = RawMemory_move_assign this rhs (map data_m vs);
          vs1 = map (\<lambda>(v, m). v\<lparr>data_m := m\<rparr>) (zip vs ms);
          n = size_m (vs1 ! rhs);
          vs2 = vs1[rhs := (vs1 ! rhs)\<lparr>size_m := 0\<rparr>];
          vs3 = vs2[this := (vs2 ! this)\<lparr>size_m := n\<rparr>]
      in vs3)"

definition Vector_Swap :: "nat \<Rightarrow> nat \<Rightarrow> Vector list \<Rightarrow> Vector list" where
  "Vector_Swap this other vs =
     (case Swap (vs ! this) (vs ! other) of (a, b) \<Rightarrow> vs[this := a, other := b])"

section \<open>Representation invariant and abstraction\<close>

text \<open>
  A vector is well formed in a free store when its buffer is null with capacity and size
  \<open>0\<close>, or the start of an allocated block of exactly \<open>capacity_\<close> slots whose first
  \<open>size_\<close> slots hold live objects. Its elements are what \<^verbatim>\<open>v[0]\<close>, ...,
  \<^verbatim>\<open>v[Size() - 1]\<close> read.
\<close>

definition wf_vector :: "'a heap \<Rightarrow> Vector \<Rightarrow> bool" where
  "wf_vector h v =
     (case buffer_m (data_m v) of
        Null \<Rightarrow> capacity_m (data_m v) = 0 \<and> size_m v = 0
      | Ptr a i \<Rightarrow>
          i = 0 \<and>
          (case slots_at h a of
             None \<Rightarrow> False
           | Some sl \<Rightarrow>
               length sl = capacity_m (data_m v) \<and> size_m v \<le> capacity_m (data_m v) \<and>
               list_all (\<lambda>s. s \<noteq> None) (take (size_m v) sl))
      | Wild \<Rightarrow> False)"

definition elems :: "'a heap \<Rightarrow> Vector \<Rightarrow> 'a list" where
  "elems h v = map (\<lambda>i. the (deref h (ptr_add (Vector_begin v) i))) [0..<Size v]"

text \<open>Two vectors that do not share a block.\<close>

definition separate :: "Vector \<Rightarrow> Vector \<Rightarrow> bool" where
  "separate v w =
     (case (buffer_m (data_m v), buffer_m (data_m w)) of
        (Ptr a i, Ptr b j) \<Rightarrow> a \<noteq> b
      | _ \<Rightarrow> True)"

section \<open>Example element types and states\<close>

text \<open>
  \<open>plain\<close> behaves like \<^verbatim>\<open>int\<close>: nothing throws and a move leaves the source as it
  was. \<open>throwing_copy\<close> is copyable, not nothrow-movable, and its copy constructor
  throws on negative values. \<open>move_only\<close> cannot be copied, its move constructor throws
  on negative values and leaves \<open>0\<close> behind. \<open>unique\<close> cannot be copied either,
  and its move constructor never throws, as that of \<^verbatim>\<open>std::unique_ptr\<close>.
\<close>

definition plain :: "int elem_type" where
  "plain =
     \<lparr>nothrow_move_constructible = True, copy_constructible = True,
      value_init = (\<lambda>n. Some 0),
      copy_ctor_throws = (\<lambda>x. False), move_ctor_throws = (\<lambda>x. False),
      copy_assign_throws = (\<lambda>x. False), move_assign_throws = (\<lambda>x. False),
      moved_from = (\<lambda>x. x)\<rparr>"

definition throwing_copy :: "int elem_type" where
  "throwing_copy =
     \<lparr>nothrow_move_constructible = False, copy_constructible = True,
      value_init = (\<lambda>n. Some 0),
      copy_ctor_throws = (\<lambda>x. x < 0), move_ctor_throws = (\<lambda>x. x < 0),
      copy_assign_throws = (\<lambda>x. False), move_assign_throws = (\<lambda>x. False),
      moved_from = (\<lambda>x. x)\<rparr>"



definition empty_heap :: "int heap" where
  "empty_heap = \<lparr>blocks = [], budget = 100, constructed = 0, destroyed = 0\<rparr>"

text \<open>A free store with one block of four slots holding the vector \<^verbatim>\<open>[1, 2, 3, 4]\<close>.\<close>

definition heap_1234 :: "int heap" where
  "heap_1234 =
     \<lparr>blocks = [Block [Some 1, Some 2, Some 3, Some 4]], budget = 96,
      constructed = 4, destroyed = 0\<rparr>"

definition vec_1234 :: Vector where
  "vec_1234 = \<lparr>data_m = \<lparr>buffer_m = Ptr 0 0, capacity_m = 4\<rparr>, size_m = 4\<rparr>"

section \<open>Runs of calls\<close>

text \<open>
  A run of \<^verbatim>\<open>PushBack\<close> calls on one vector, each through one of the two overloads.
  The run stops at the first call that does not return; otherwise it yields the vector
  as it was after each call.
\<close>

datatype 'a pushed = ByCopy 'a | ByMove 'a

fun PushBack_any ::
  "'a elem_type \<Rightarrow> 'a pushed \<Rightarrow> Vector \<Rightarrow> 'a heap \<Rightarrow> (error + unit) \<times> Vector \<times> 'a heap" where
  "PushBack_any T (ByCopy x) v h = PushBack T x v h"
| "PushBack_any T (ByMove x) v h = PushBack_move T x v h"

fun PushBack_run ::
  "'a elem_type \<Rightarrow> 'a pushed list \<Rightarrow> Vector \<Rightarrow> 'a heap \<Rightarrow> error + Vector list" where
  "PushBack_run T [] v h = Inr []"
| "PushBack_run T (x # xs) v h =
     (case PushBack_any T x v h of
        (Inl e, v1, h1) \<Rightarrow> Inl e
      | (Inr u, v1, h1) \<Rightarrow>
          (case PushBack_run T xs v1 h1 of
             Inl e \<Rightarrow> Inl e
           | Inr vs \<Rightarrow> Inr (v1 # vs)))"

text \<open>
  How the storage of a vector may change over one \<^verbatim>\<open>PushBack\<close>: not at all, or by
  a reallocation to capacity \<open>1\<close> from capacity \<open>0\<close>, or to twice the capacity.
\<close>

definition growth_step :: "Vector \<Rightarrow> Vector \<Rightarrow> bool" where
  "growth_step v w =
     (data_m w = data_m v \<or>
      (Capacity v = 0 \<and> Capacity w = 1) \<or>
      (0 < Capacity v \<and> Capacity w = 2 * Capacity v))"

text \<open>
  A call of a member function by a client that holds the vectors \<open>vs\<close>. Constructors
  add an object at the end of the list; the other calls name their objects by position
  and their iterators by an index from \<^verbatim>\<open>begin()\<close>. A call on an object that does not
  exist is undefined.
\<close>

datatype 'a call =
    New_default
  | New_sized nat
  | New_copy nat
  | New_move nat
  | Assign_copy nat nat
  | Assign_move nat nat
  | Call_Swap nat nat
  | Call_Reserve nat nat
  | Call_Resize nat nat
  | Call_PushBack nat "'a pushed"
  | Call_PopBack nat
  | Call_EmplaceBack nat "'a option"
  | Call_Emplace nat nat "'a option"
  | Call_Insert nat nat "'a pushed"
  | Call_Erase nat nat

definition on_object ::
  "nat \<Rightarrow> (Vector \<Rightarrow> 'a heap \<Rightarrow> (error + 'r) \<times> Vector \<times> 'a heap) \<Rightarrow> Vector list \<Rightarrow> 'a heap
     \<Rightarrow> (error + unit) \<times> Vector list \<times> 'a heap" where
  "on_object i f vs h =
     (if i < length vs
      then (case f (vs ! i) h of (r, v1, h1) \<Rightarrow> (map_sum id (\<lambda>x. ()) r, vs[i := v1], h1))
      else (Inl Undefined, vs, h))"

fun exec ::
  "'a elem_type \<Rightarrow> 'a call \<Rightarrow> Vector list \<Rightarrow> 'a heap \<Rightarrow> (error + unit) \<times> Vector list \<times> 'a heap" where
  "exec T New_default vs h = (Inr (), vs @ [Vector_default], h)"
| "exec T (New_sized n) vs h =
     (case Vector_sized T n h of
        (Inl e, h1) \<Rightarrow> (Inl e, vs, h1)
      | (Inr v, h1) \<Rightarrow> (Inr (), vs @ [v], h1))"
| "exec T (New_copy i) vs h =
     (if i < length vs
      then (case Vector_copy_ctor T (vs ! i) h of
              (Inl e, h1) \<Rightarrow> (Inl e, vs, h1)
            | (Inr v, h1) \<Rightarrow> (Inr (), vs @ [v], h1))
      else (Inl Undefined, vs, h))"
| "exec T (New_move i) vs h =
     (if i < length vs
      then (case Vector_move_ctor (vs ! i) of (v, other) \<Rightarrow> (Inr (), vs[i := other] @ [v], h))
      else (Inl Undefined, vs, h))"
| "exec T (Assign_copy i j) vs h =
     (if i < length vs \<and> j < length vs then Vector_copy_assign T i j vs h
      else (Inl Undefined, vs, h))"
| "exec T (Assign_move i j) vs h =
     (if i < length vs \<and> j < length vs then (Inr (), Vector_move_assign i j vs, h)
      else (Inl Undefined, vs, h))"
| "exec T (Call_Swap i j) vs h =
     (if i < length vs \<and> j < length vs then (Inr (), Vector_Swap i j vs, h)
      else (Inl Undefined, vs, h))"
| "exec T (Call_Reserve i n) vs h = on_object i (Reserve T n) vs h"
| "exec T (Call_Resize i n) vs h = on_object i (Resize T n) vs h"
| "exec T (Call_PushBack i x) vs h = on_object i (PushBack_any T x) vs h"
| "exec T (Call_PopBack i) vs h = on_object i PopBack vs h"
| "exec T (Call_EmplaceBack i args) vs h = on_object i (EmplaceBack T args) vs h"
| "exec T (Call_Emplace i k args) vs h =
     on_object i (\<lambda>v. Emplace T (ptr_add (Vector_begin v) k) args v) vs h"
| "exec T (Call_Insert i k (ByCopy x)) vs h =
     on_object i (\<lambda>v. Insert T (ptr_add (Vector_begin v) k) x v) vs h"
| "exec T (Call_Insert i k (ByMove x)) vs h =
     on_object i (\<lambda>v. Insert_move T (ptr_add (Vector_begin v) k) x v) vs h"
| "exec T (Call_Erase i k) vs h =
     on_object i (\<lambda>v. Erase T (ptr_add (Vector_begin v) k) v) vs h"





text \<open>A run of calls, stopped by the first one that does not return.\<close>

fun exec_all ::
  "'a elem_type \<Rightarrow> 'a call list \<Rightarrow> Vector list \<Rightarrow> 'a heap
     \<Rightarrow> (error + unit) \<times> Vector list \<times> 'a heap" where
  "exec_all T [] vs h = (Inr (), vs, h)"
| "exec_all T (c # cs) vs h =
     (case exec T c vs h of
        (Inl e, vs1, h1) \<Rightarrow> (Inl e, vs1, h1)
      | (Inr u, vs1, h1) \<Rightarrow> exec_all T cs vs1 h1)"

text \<open>
  What the counters of an instrumented element type show, and what the client can
  observe through \<^verbatim>\<open>Size()\<close>.
\<close>

definition live_objects :: "'a heap \<Rightarrow> int" where
  "live_objects h = int (constructed h) - int (destroyed h)"

definition total_size :: "Vector list \<Rightarrow> int" where
  "total_size vs = int (sum_list (map Size vs))"

text \<open>
  A free store with two blocks: the vector \<^verbatim>\<open>[1, 2, 3, 4]\<close> at capacity \<open>4\<close> and
  the vector \<^verbatim>\<open>[7]\<close> at capacity \<open>2\<close>.
\<close>

definition heap_two :: "int heap" where
  "heap_two =
     \<lparr>blocks = [Block [Some 1, Some 2, Some 3, Some 4], Block [Some 7, None]], budget = 94,
      constructed = 5, destroyed = 0\<rparr>"

definition vec_7 :: Vector where
  "vec_7 = \<lparr>data_m = \<lparr>buffer_m = Ptr 1 0, capacity_m = 2\<rparr>, size_m = 1\<rparr>"

text \<open>
  \<open>same_but b h h'\<close>: the free store \<open>h'\<close> differs from \<open>h\<close> at most in what the
  slots of block \<open>b\<close> hold and in the two counters.
\<close>

definition same_but :: "nat \<Rightarrow> 'a heap \<Rightarrow> 'a heap \<Rightarrow> bool" where
  "same_but b h h' =
     (length (blocks h') = length (blocks h) \<and> budget h' = budget h \<and>
      (\<forall>a < length (blocks h). a \<noteq> b \<longrightarrow> blocks h' ! a = blocks h ! a) \<and>
      (case slots_at h b of
         None \<Rightarrow> slots_at h' b = None
       | Some sl \<Rightarrow> (case slots_at h' b of None \<Rightarrow> False | Some sl' \<Rightarrow> length sl' = length sl)))"

text \<open>
  A full vector of two elements, \<^verbatim>\<open>[5, -1]\<close>, whose second element makes the copy
  constructor of \<open>throwing_copy\<close> and the move constructor of \<open>move_only\<close> throw.
\<close>

definition heap_pair :: "int heap" where
  "heap_pair = \<lparr>blocks = [Block [Some 5, Some (- 1)]], budget = 98, constructed = 2, destroyed = 0\<rparr>"

definition vec_pair :: Vector where
  "vec_pair = \<lparr>data_m = \<lparr>buffer_m = Ptr 0 0, capacity_m = 2\<rparr>, size_m = 2\<rparr>"

section \<open>Facts about single calls\<close>

lemma RawMemory_sized_capacity:
  "RawMemory_sized n h = (Inr m, h1) \<Longrightarrow> capacity_m m = n"
  by (auto simp: RawMemory_sized_def split: prod.splits sum.splits)

lemma Reserve_capacity_ge:
  assumes "Reserve T n v h = (Inr u, v1, h1)"
  shows "n \<le> Capacity v1"
proof (cases "n \<le> Capacity v")
  case True
  with assms show ?thesis by (simp add: Reserve_def)
next
  case False
  with assms obtain m h0 where m: "RawMemory_sized n h = (Inr m, h0)" and v1: "v1 = v\<lparr>data_m := m\<rparr>"
    by (auto simp: Reserve_def RawMemory_Swap_def split: prod.splits sum.splits if_splits)
  from RawMemory_sized_capacity[OF m] v1 show ?thesis
    by (simp add: Capacity_def RawMemory_Capacity_def)
qed

lemma EmplaceWithoutDataRelocation_same_vector:
  "EmplaceWithoutDataRelocation T pos index args v h = (r, v1, h1) \<Longrightarrow> v1 = v"
  by (auto simp: EmplaceWithoutDataRelocation_def
      split: prod.splits sum.splits if_splits option.splits)

lemma EmplaceWithDataRelocation_vector:
  assumes "EmplaceWithDataRelocation T pos index args v h = (r, v1, h1)"
  shows "(v1 = v \<and> (\<exists>e. r = Inl e)) \<or>
         (\<exists>m. v1 = v\<lparr>data_m := m\<rparr> \<and> capacity_m m = (if Size v = 0 then 1 else Size v * 2))"
proof (cases "RawMemory_sized (if Size v = 0 then 1 else Size v * 2) h")
  case (Pair a h0)
  show ?thesis
  proof (cases a)
    case (Inl e)
    with Pair assms show ?thesis by (auto simp: EmplaceWithDataRelocation_def)
  next
    case (Inr m)
    from RawMemory_sized_capacity[OF Pair[unfolded Inr]]
    have "capacity_m m = (if Size v = 0 then 1 else Size v * 2)" .
    with Pair Inr assms show ?thesis
      by (auto simp: EmplaceWithDataRelocation_def RawMemory_Swap_def
          split: prod.splits sum.splits)
  qed
qed

lemma Emplace_growth:
  assumes "Emplace T pos args v h = (Inr p, v1, h1)"
  shows "Size v1 = Size v + 1 \<and> growth_step v v1"
proof -
  from assms have ok: "ptr_le (Vector_begin v) pos" "ptr_le pos (Vector_end v)"
    by (auto simp: Emplace_def split: if_splits)
  show ?thesis
  proof (cases "Size v = Capacity v")
    case True
    with assms ok obtain w h0 where
      w: "EmplaceWithDataRelocation T pos (distance (Vector_begin v) pos) args v h = (Inr (), w, h0)"
      and v1: "v1 = w\<lparr>size_m := size_m w + 1\<rparr>"
      by (auto simp: Emplace_def Let_def split: prod.splits sum.splits)
    from EmplaceWithDataRelocation_vector[OF w] True v1 show ?thesis
      by (auto simp: growth_step_def Size_def Capacity_def RawMemory_Capacity_def
          split: if_splits)
  next
    case False
    with assms ok obtain w h0 where
      w: "EmplaceWithoutDataRelocation T pos (distance (Vector_begin v) pos) args v h = (Inr (), w, h0)"
      and v1: "v1 = w\<lparr>size_m := size_m w + 1\<rparr>"
      by (auto simp: Emplace_def Let_def split: prod.splits sum.splits)
    from EmplaceWithoutDataRelocation_same_vector[OF w] v1 show ?thesis
      by (auto simp: growth_step_def Size_def)
  qed
qed

lemma PushBack_any_growth:
  assumes "PushBack_any T x v h = (Inr u, v1, h1)"
  shows "Size v1 = Size v + 1 \<and> growth_step v v1"
  using assms
  by (cases x) (auto simp: PushBack_def PushBack_move_def EmplaceBack_def
      split: prod.splits sum.splits dest: Emplace_growth)

lemma PushBack_run_steps:
  "PushBack_run T xs v h = Inr vs \<Longrightarrow>
   length vs = length xs \<and>
   (\<forall>k < length xs. Size (vs ! k) = Size v + Suc k \<and> growth_step ((v # vs) ! k) (vs ! k))"
proof (induction xs arbitrary: v h vs)
  case Nil
  then show ?case by simp
next
  case (Cons x xs)
  from Cons.prems obtain v1 h1 ws where
    step: "PushBack_any T x v h = (Inr (), v1, h1)" and
    rest: "PushBack_run T xs v1 h1 = Inr ws" and vs: "vs = v1 # ws"
    by (auto split: prod.splits sum.splits)
  from PushBack_any_growth[OF step] have s1: "Size v1 = Size v + 1" and g1: "growth_step v v1"
    by simp_all
  from Cons.IH[OF rest] have len: "length ws = length xs" and
    ih: "\<And>k. k < length xs \<Longrightarrow>
           Size (ws ! k) = Size v1 + Suc k \<and> growth_step ((v1 # ws) ! k) (ws ! k)"
    by simp_all
  show ?case
  proof (intro conjI allI impI)
    show "length vs = length (x # xs)" using len vs by simp
  next
    fix k assume k: "k < length (x # xs)"
    show "Size (vs ! k) = Size v + Suc k"
    proof (cases k)
      case 0 then show ?thesis using vs s1 by simp
    next
      case (Suc j) then show ?thesis using vs s1 ih[of j] k by simp
    qed
  next
    fix k assume k: "k < length (x # xs)"
    show "growth_step ((v # vs) ! k) (vs ! k)"
    proof (cases k)
      case 0 then show ?thesis using vs g1 by simp
    next
      case (Suc j) then show ?thesis using vs ih[of j] k by simp
    qed
  qed
qed

section \<open>Size and capacity over one call\<close>







lemma Erase_of_empty_wraps_size:
  assumes "Size v = 0" "Vector_begin v \<noteq> Wild"
  shows "Erase T (Vector_begin v) v h =
           (Inr (Vector_begin v), v\<lparr>size_m := SIZE_MAX\<rparr>, h\<lparr>destroyed := destroyed h + 1\<rparr>)"
  using assms
  by (cases "Vector_begin v")
     (auto simp: Erase_def Vector_end_def Vector_begin_def Size_def std_move_def Let_def)














section \<open>Which blocks a call touches, and which errors it can raise\<close>

lemma slots_at_fields [simp]:
  "slots_at (h\<lparr>budget := b\<rparr>) a = slots_at h a"
  "slots_at (h\<lparr>constructed := c\<rparr>) a = slots_at h a"
  "slots_at (h\<lparr>destroyed := d\<rparr>) a = slots_at h a"
  by (simp_all add: slots_at_def)

lemma slots_at_SomeD:
  "slots_at h a = Some sl \<Longrightarrow> a < length (blocks h) \<and> blocks h ! a = Block sl"
  by (auto simp: slots_at_def split: if_splits block.splits)

lemma slots_at_update [simp]:
  "slots_at (h\<lparr>blocks := (blocks h)[a := Block sl]\<rparr>) b =
     (if b = a \<and> a < length (blocks h) then Some sl else slots_at h b)"
  by (auto simp: slots_at_def nth_list_update)

lemma same_but_refl [simp]: "same_but b h h"
  by (auto simp: same_but_def split: option.splits)

lemma same_but_trans: "same_but b h h1 \<Longrightarrow> same_but b h1 h2 \<Longrightarrow> same_but b h h2"
  by (auto simp: same_but_def split: option.splits)

lemma same_but_counters [simp]:
  "same_but b h (h'\<lparr>constructed := c\<rparr>) = same_but b h h'"
  "same_but b h (h'\<lparr>destroyed := d\<rparr>) = same_but b h h'"
  by (simp_all add: same_but_def cong: option.case_cong)

lemma same_but_put: "same_but b h (put (Ptr b i) s h)"
  by (auto simp: same_but_def dest: slots_at_SomeD split: option.splits)

lemma same_but_construct_at: "construct_at (Ptr b i) x h = (r, h') \<Longrightarrow> same_but b h h'"
  by (auto simp: construct_at_def same_but_put simp del: put.simps split: if_splits)

lemma same_but_destroy_at: "destroy_at (Ptr b i) h = (r, h') \<Longrightarrow> same_but b h h'"
  by (auto simp: destroy_at_def same_but_put simp del: put.simps split: option.splits)

lemma same_but_copy_construct: "copy_construct T (Ptr b i) src h = (r, h') \<Longrightarrow> same_but b h h'"
  by (auto simp: copy_construct_def split: option.splits if_splits dest: same_but_construct_at)

lemma same_but_uninitialized_copy_n:
  "uninitialized_copy_n T src n (Ptr b i) h = (r, h') \<Longrightarrow> same_but b h h'"
proof (induction n arbitrary: src i h r h')
  case 0
  then show ?case by simp
next
  case (Suc n)
  obtain r1 h1 where c: "copy_construct T (Ptr b i) src h = (r1, h1)" by (metis prod.exhaust)
  note s1 = same_but_copy_construct[OF c]
  show ?case
  proof (cases r1)
    case (Inl e)
    with Suc.prems c s1 show ?thesis by simp
  next
    case (Inr u)
    obtain r2 h2 where u: "uninitialized_copy_n T (ptr_add src 1) n (Ptr b (i + 1)) h1 = (r2, h2)"
      by (metis prod.exhaust)
    note s2 = same_but_trans[OF s1 Suc.IH[OF u]]
    show ?thesis
    proof (cases r2)
      case (Inl e)
      obtain r3 h3 where d: "destroy_at (Ptr b i) h2 = (r3, h3)" by (metis prod.exhaust)
      from same_but_trans[OF s2 same_but_destroy_at[OF d]] Suc.prems c Inr u Inl d
      show ?thesis by simp
    next
      case (Inr u2)
      with Suc.prems c \<open>r1 = Inr u\<close> u s2 show ?thesis by simp
    qed
  qed
qed


lemma destroy_at_errors: "destroy_at p h = (Inl e, h') \<Longrightarrow> e = Undefined"
  by (auto simp: destroy_at_def split: option.splits)

lemma destroy_n_errors: "destroy_n p n h = (Inl e, h') \<Longrightarrow> e = Undefined"
  by (induction n arbitrary: p h)
     (auto split: prod.splits sum.splits dest: destroy_at_errors)

lemma operator_delete_errors: "operator_delete p h = (Inl e, h') \<Longrightarrow> e = Undefined"
  by (cases p) (auto split: option.splits if_splits)

lemma RawMemory_dtor_errors: "RawMemory_dtor m h = (Inl e, h') \<Longrightarrow> e = Undefined"
  by (auto simp: RawMemory_dtor_def Deallocate_def dest: operator_delete_errors)



lemma RawMemory_sized_new:
  assumes "RawMemory_sized n h = (r, h1)" "0 < n"
  shows "(r = Inl BadAlloc \<and> h1 = h) \<or>
         (n \<le> budget h \<and> r = Inr \<lparr>buffer_m = Ptr (length (blocks h)) 0, capacity_m = n\<rparr> \<and>
          h1 = h\<lparr>blocks := blocks h @ [Block (replicate n None)], budget := budget h - n\<rparr>)"
  using assms
  by (auto simp: RawMemory_sized_def Allocate_def operator_new_def split: if_splits)

lemma release_new_block:
  assumes sb: "same_but (length (blocks h))
                 (h\<lparr>blocks := blocks h @ [Block (replicate n None)], budget := budget h - n\<rparr>) hx"
    and n: "n \<le> budget h"
  shows "\<exists>hy. RawMemory_dtor \<lparr>buffer_m = Ptr (length (blocks h)) 0, capacity_m = n\<rparr> hx = (Inr (), hy) \<and>
              blocks hy = blocks h @ [Freed] \<and> budget hy = budget h \<and>
              constructed hy = constructed hx \<and> destroyed hy = destroyed hx"
proof -
  let ?nb = "length (blocks h)"
  let ?h1 = "h\<lparr>blocks := blocks h @ [Block (replicate n None)], budget := budget h - n\<rparr>"
  have s1: "slots_at ?h1 ?nb = Some (replicate n None)" by (simp add: slots_at_def)
  from sb s1 obtain sl where sl: "slots_at hx ?nb = Some sl" "length sl = n"
    by (auto simp: same_but_def split: option.splits)
  from sb have len: "length (blocks hx) = Suc ?nb" and bud: "budget hx = budget h - n"
    and rest: "\<And>a. a < ?nb \<Longrightarrow> blocks hx ! a = blocks h ! a"
    by (auto simp: same_but_def nth_append)
  have "(blocks hx)[?nb := Freed] = blocks h @ [Freed]"
    by (rule nth_equalityI) (auto simp: len nth_list_update nth_append rest less_Suc_eq)
  with sl bud n show ?thesis
    by (simp add: RawMemory_dtor_def Deallocate_def)
qed


lemma wf_vector_append_blocks:
  assumes "wf_vector h v" "blocks h' = blocks h @ bs"
  shows "elems h' v = elems h v \<and> wf_vector h' v"
proof (cases "buffer_m (data_m v)")
  case Null
  with assms show ?thesis
    by (simp add: wf_vector_def elems_def Size_def)
next
  case (Ptr a i)
  with assms(1) obtain sl where sl: "slots_at h a = Some sl" and i: "i = 0"
    by (auto simp: wf_vector_def split: option.splits)
  from slots_at_SomeD[OF sl] assms(2) have "slots_at h' a = Some sl"
    by (simp add: slots_at_def nth_append)
  with sl Ptr assms(1) show ?thesis
    by (simp add: wf_vector_def elems_def Vector_begin_def GetAddress_def)
next
  case Wild
  with assms show ?thesis by (simp add: wf_vector_def)
qed

section \<open>The effect of the algorithms on the slots of a block\<close>

lemma block_update_same:
  "slots_at h a = Some sl \<Longrightarrow> (blocks h)[a := Block sl] = blocks h"
  by (auto dest!: slots_at_SomeD simp: list_update_same_conv)

lemma heap_blocks_same [simp]:
  "slots_at h a = Some sl \<Longrightarrow> h\<lparr>blocks := (blocks h)[a := Block sl]\<rparr> = h"
  by (simp add: block_update_same)


lemma destroy_at_Ptr:
  "slots_at h a = Some sl \<Longrightarrow> i < length sl \<Longrightarrow> sl ! i = Some x \<Longrightarrow>
   destroy_at (Ptr a i) h =
     (Inr (), h\<lparr>blocks := (blocks h)[a := Block (sl[i := None])],
                destroyed := destroyed h + 1\<rparr>)"
  by (simp add: destroy_at_def)

lemma destroy_n_live:
  "slots_at h a = Some sl \<Longrightarrow> i + n \<le> length sl \<Longrightarrow> (\<forall>k<n. sl ! (i + k) \<noteq> None) \<Longrightarrow>
   destroy_n (Ptr a i) n h =
     (Inr (), h\<lparr>blocks := (blocks h)[a := Block (take i sl @ replicate n None @ drop (i + n) sl)],
                destroyed := destroyed h + n\<rparr>)"
proof (induction n arbitrary: i sl h)
  case 0
  then show ?case by simp
next
  case (Suc n)
  from Suc.prems(2) have i: "i < length sl" by simp
  from Suc.prems(3)[rule_format, of 0] obtain x where x: "sl ! i = Some x" by auto
  let ?h1 = "h\<lparr>blocks := (blocks h)[a := Block (sl[i := None])], destroyed := destroyed h + 1\<rparr>"
  have d: "destroy_at (Ptr a i) h = (Inr (), ?h1)"
    using destroy_at_Ptr[OF Suc.prems(1) i x] .
  have a: "a < length (blocks h)" using slots_at_SomeD[OF Suc.prems(1)] by simp
  have s1: "slots_at ?h1 a = Some (sl[i := None])" using a by simp
  have live: "\<forall>k<n. (sl[i := None]) ! (Suc i + k) \<noteq> None"
    using Suc.prems(3) by (auto simp: nth_list_update)
  have ih: "destroy_n (Ptr a (Suc i)) n ?h1 =
     (Inr (), ?h1\<lparr>blocks := (blocks ?h1)[a := Block (take (Suc i) (sl[i := None]) @ replicate n None
                     @ drop (Suc i + n) (sl[i := None]))],
                destroyed := destroyed ?h1 + n\<rparr>)"
    using Suc.IH[OF s1 _ live] Suc.prems(2) by simp
  have t: "take (Suc i) (sl[i := None]) = take i sl @ [None]"
    using i by (simp add: take_Suc_conv_app_nth)
  have "destroy_n (Ptr a i) (Suc n) h = destroy_n (Ptr a (Suc i)) n ?h1"
    using d by simp
  also note ih[unfolded t]
  finally show ?case by simp
qed

lemma move_assign_within:
  assumes "slots_at h a = Some sl" "i < length sl" "j < length sl" "i \<noteq> j"
    and "sl ! j = Some x" "sl ! i \<noteq> None" "\<not> move_assign_throws T x"
  shows "move_assign T (Ptr a i) (Ptr a j) h =
           (Inr (), h\<lparr>blocks := (blocks h)[a := Block (sl[i := Some x, j := Some (moved_from T x)])]\<rparr>)"
  using assms slots_at_SomeD[OF assms(1)]
  by (auto simp: move_assign_def assign_at_def)

lemma move_n_shift_left:
  "slots_at h a = Some sl \<Longrightarrow> i + n < length sl \<Longrightarrow> (\<forall>k\<le>n. sl ! (i + k) \<noteq> None) \<Longrightarrow>
   (\<forall>k<n. \<not> move_assign_throws T (the (sl ! (Suc i + k)))) \<Longrightarrow>
   move_n T (Ptr a (Suc i)) n (Ptr a i) h =
     (Inr (), h\<lparr>blocks := (blocks h)[a := Block
        (take i sl @ take n (drop (Suc i) sl) @
         (if n = 0 then sl ! i else Some (moved_from T (the (sl ! (i + n))))) # drop (Suc (i + n)) sl)]\<rparr>)"
proof (induction n arbitrary: i sl h)
  case 0
  then have "take i sl @ sl ! i # drop (Suc i) sl = sl"
    by (simp add: id_take_nth_drop[symmetric])
  with 0 show ?case by simp
next
  case (Suc n)
  from Suc.prems(3)[rule_format, of 1] obtain x where x: "sl ! Suc i = Some x" by auto
  from Suc.prems(3)[rule_format, of 0] have dst: "sl ! i \<noteq> None" by simp
  from Suc.prems(4)[rule_format, of 0] x have nt: "\<not> move_assign_throws T x" by simp
  let ?sl1 = "sl[i := Some x, Suc i := Some (moved_from T x)]"
  let ?h1 = "h\<lparr>blocks := (blocks h)[a := Block ?sl1]\<rparr>"
  have m: "move_assign T (Ptr a i) (Ptr a (Suc i)) h = (Inr (), ?h1)"
    using move_assign_within[OF Suc.prems(1) _ _ _ x dst nt] Suc.prems(2) by simp
  have a: "a < length (blocks h)" using slots_at_SomeD[OF Suc.prems(1)] by simp
  have s1: "slots_at ?h1 a = Some ?sl1" using a by simp
  have live: "\<forall>k\<le>n. ?sl1 ! (Suc i + k) \<noteq> None"
  proof (intro allI impI)
    fix k assume "k \<le> n"
    with Suc.prems(3)[rule_format, of "Suc k"] Suc.prems(2)
    show "?sl1 ! (Suc i + k) \<noteq> None" by (cases k) (auto simp: nth_list_update)
  qed
  have nothrow: "\<forall>k<n. \<not> move_assign_throws T (the (?sl1 ! (Suc (Suc i) + k)))"
    using Suc.prems(4) by (auto simp: nth_list_update)
  have ih: "move_n T (Ptr a (Suc (Suc i))) n (Ptr a (Suc i)) ?h1 =
     (Inr (), ?h1\<lparr>blocks := (blocks ?h1)[a := Block
        (take (Suc i) ?sl1 @ take n (drop (Suc (Suc i)) ?sl1) @
         (if n = 0 then ?sl1 ! Suc i else Some (moved_from T (the (?sl1 ! (Suc i + n)))))
           # drop (Suc (Suc i + n)) ?sl1)]\<rparr>)"
    using Suc.IH[OF s1 _ live nothrow] Suc.prems(2) by simp
  have i1: "Suc i < length sl" using Suc.prems(2) by simp
  have t1: "take (Suc i) ?sl1 = take i sl @ [Some x]"
    using i1 by (simp add: take_Suc_conv_app_nth)
  have d1: "drop (Suc (Suc i)) ?sl1 = drop (Suc (Suc i)) sl" by simp
  have d2: "drop (Suc (Suc i + n)) ?sl1 = drop (Suc (i + Suc n)) sl" by simp
  have t2: "take (Suc n) (drop (Suc i) sl) = Some x # take n (drop (Suc (Suc i)) sl)"
    using i1 x by (simp add: Cons_nth_drop_Suc[symmetric])
  have e1: "(if n = 0 then ?sl1 ! Suc i else Some (moved_from T (the (?sl1 ! (Suc i + n))))) =
            Some (moved_from T (the (sl ! (i + Suc n))))"
    using i1 x by (cases n) simp_all
  have lists: "take (Suc i) ?sl1 @ take n (drop (Suc (Suc i)) ?sl1) @
         (if n = 0 then ?sl1 ! Suc i else Some (moved_from T (the (?sl1 ! (Suc i + n)))))
           # drop (Suc (Suc i + n)) ?sl1 =
        take i sl @ take (Suc n) (drop (Suc i) sl) @
         Some (moved_from T (the (sl ! (i + Suc n)))) # drop (Suc (i + Suc n)) sl"
    unfolding t1 d1 d2 t2 e1 by simp
  have "move_n T (Ptr a (Suc i)) (Suc n) (Ptr a i) h =
        move_n T (Ptr a (Suc (Suc i))) n (Ptr a (Suc i)) ?h1"
    using m by simp
  also note ih[unfolded lists]
  finally show ?case by simp
qed


lemma wf_vector_cases:
  assumes "wf_vector h v"
  obtains (null) "buffer_m (data_m v) = Null" "capacity_m (data_m v) = 0" "size_m v = 0"
  | (block) a sl where "buffer_m (data_m v) = Ptr a 0" "slots_at h a = Some sl"
      "length sl = capacity_m (data_m v)" "size_m v \<le> length sl"
      "\<forall>k<size_m v. sl ! k \<noteq> None"
  using assms
  by (cases "buffer_m (data_m v)")
     (auto simp: wf_vector_def list_all_length split: option.splits)

lemma elems_slots:
  assumes "buffer_m (data_m v) = Ptr a 0" "slots_at h a = Some sl" "size_m v \<le> length sl"
  shows "elems h v = map the (take (size_m v) sl)"
  using assms
  by (auto simp: elems_def Vector_begin_def GetAddress_def Size_def intro!: nth_equalityI)

lemma Erase_effect:
  assumes buf: "buffer_m (data_m v) = Ptr a 0" and sl: "slots_at h a = Some sl"
    and len: "size_m v \<le> length sl" and live: "\<forall>k<size_m v. sl ! k \<noteq> None"
    and i: "i < size_m v"
    and nothrow: "\<forall>k. Suc i \<le> k \<and> k < size_m v \<longrightarrow> \<not> move_assign_throws T (the (sl ! k))"
  shows "Erase T (Ptr a i) v h =
     (Inr (Ptr a i), v\<lparr>size_m := size_m v - 1\<rparr>,
      h\<lparr>blocks := (blocks h)[a := Block
           (take i sl @ take (size_m v - Suc i) (drop (Suc i) sl) @ None # drop (size_m v) sl)],
        destroyed := destroyed h + 1\<rparr>)"
proof -
  define n where "n = size_m v - Suc i"
  have s: "size_m v = Suc (i + n)" using i by (simp add: n_def)
  let ?x = "if n = 0 then sl ! i else Some (moved_from T (the (sl ! (i + n))))"
  let ?l1 = "take i sl @ take n (drop (Suc i) sl) @ ?x # drop (Suc (i + n)) sl"
  let ?h1 = "h\<lparr>blocks := (blocks h)[a := Block ?l1]\<rparr>"
  have a: "a < length (blocks h)" using slots_at_SomeD[OF sl] by simp
  have mv: "move_n T (Ptr a (Suc i)) n (Ptr a i) h = (Inr (), ?h1)"
    using move_n_shift_left[OF sl, of i n T] len live nothrow by (simp add: s)
  have s1: "slots_at ?h1 a = Some ?l1" using a by simp
  have ll: "length ?l1 = length sl" using len by (simp add: s)
  have x: "?l1 ! (i + n) = ?x" using len by (simp add: s nth_append)
  have "?x \<noteq> None" using live by (simp add: s)
  then obtain y where y: "?l1 ! (i + n) = Some y" using x by auto
  have upd: "?l1[i + n := None] = take i sl @ take n (drop (Suc i) sl) @ None # drop (Suc (i + n)) sl"
    using len by (simp add: s list_update_append)
  have d: "destroy_at (Ptr a (i + n)) ?h1 =
            (Inr (), ?h1\<lparr>blocks := (blocks ?h1)[a := Block (?l1[i + n := None])],
                         destroyed := destroyed ?h1 + 1\<rparr>)"
    using destroy_at_Ptr[OF s1 _ y] len ll by (simp add: s)
  show ?thesis
    using mv d[unfolded upd] a
    by (simp add: Erase_def Vector_begin_def Vector_end_def GetAddress_def Size_def buf
        std_move_def s n_def[symmetric])
qed

section \<open>Copying between two blocks\<close>

lemma copy_construct_blocks:
  assumes "a \<noteq> b" "slots_at h a = Some sl" "slots_at h b = Some dl" "i < length sl" "j < length dl"
    and "sl ! i = Some x" "\<not> copy_ctor_throws T x"
  shows "copy_construct T (Ptr b j) (Ptr a i) h =
           (Inr (), h\<lparr>blocks := (blocks h)[b := Block (dl[j := Some x])],
                      constructed := constructed h + 1\<rparr>)"
  using assms by (simp add: copy_construct_def construct_at_def)

lemma copy_assign_blocks:
  assumes "a \<noteq> b" "slots_at h a = Some sl" "slots_at h b = Some dl" "i < length sl" "j < length dl"
    and "sl ! i = Some x" "\<not> copy_assign_throws T x" "dl ! j \<noteq> None"
  shows "copy_assign T (Ptr b j) (Ptr a i) h =
           (Inr (), h\<lparr>blocks := (blocks h)[b := Block (dl[j := Some x])]\<rparr>)"
  using assms by (auto simp: copy_assign_def assign_at_def)

lemma splice_step:
  assumes "i < length sl" "j < length dl" "sl ! i = y"
  shows "take (Suc j) (dl[j := y]) @ take n (drop (Suc i) sl) @ drop (Suc j + n) (dl[j := y]) =
         take j dl @ take (Suc n) (drop i sl) @ drop (j + Suc n) dl"
proof -
  have "take (Suc j) (dl[j := y]) = take j dl @ [y]"
    using assms(2) by (simp add: take_Suc_conv_app_nth)
  moreover have "take (Suc n) (drop i sl) = y # take n (drop (Suc i) sl)"
    using assms(1,3) by (simp add: Cons_nth_drop_Suc[symmetric])
  ultimately show ?thesis by simp
qed

lemma uninitialized_copy_n_blocks:
  "a \<noteq> b \<Longrightarrow> slots_at h a = Some sl \<Longrightarrow> slots_at h b = Some dl \<Longrightarrow>
   i + n \<le> length sl \<Longrightarrow> j + n \<le> length dl \<Longrightarrow>
   (\<forall>k<n. sl ! (i + k) \<noteq> None \<and> \<not> copy_ctor_throws T (the (sl ! (i + k)))) \<Longrightarrow>
   uninitialized_copy_n T (Ptr a i) n (Ptr b j) h =
     (Inr (), h\<lparr>blocks := (blocks h)[b := Block (take j dl @ take n (drop i sl) @ drop (j + n) dl)],
                constructed := constructed h + n\<rparr>)"
proof (induction n arbitrary: i j dl h)
  case 0
  then show ?case by simp
next
  case (Suc n)
  from Suc.prems(6)[rule_format, of 0] obtain x where
    x: "sl ! i = Some x" and nt: "\<not> copy_ctor_throws T x" by auto
  let ?dl1 = "dl[j := Some x]"
  let ?h1 = "h\<lparr>blocks := (blocks h)[b := Block ?dl1], constructed := constructed h + 1\<rparr>"
  have c: "copy_construct T (Ptr b j) (Ptr a i) h = (Inr (), ?h1)"
    using copy_construct_blocks[OF Suc.prems(1,2,3) _ _ x nt] Suc.prems(4,5) by simp
  have b: "b < length (blocks h)" using slots_at_SomeD[OF Suc.prems(3)] by simp
  have sa: "slots_at ?h1 a = Some sl" using Suc.prems(1,2) by simp
  have sb: "slots_at ?h1 b = Some ?dl1" using b by simp
  have rest: "\<forall>k<n. sl ! (Suc i + k) \<noteq> None \<and> \<not> copy_ctor_throws T (the (sl ! (Suc i + k)))"
    using Suc.prems(6) by auto
  have ih: "uninitialized_copy_n T (Ptr a (Suc i)) n (Ptr b (Suc j)) ?h1 =
     (Inr (), ?h1\<lparr>blocks := (blocks ?h1)[b := Block (take (Suc j) ?dl1 @ take n (drop (Suc i) sl)
                       @ drop (Suc j + n) ?dl1)],
                constructed := constructed ?h1 + n\<rparr>)"
    using Suc.IH[OF Suc.prems(1) sa sb _ _ rest] Suc.prems(4,5) by simp
  have sp: "take (Suc j) ?dl1 @ take n (drop (Suc i) sl) @ drop (Suc j + n) ?dl1 =
            take j dl @ take (Suc n) (drop i sl) @ drop (j + Suc n) dl"
    using splice_step[of i sl j dl "Some x" n] Suc.prems(4,5) x by simp
  have "uninitialized_copy_n T (Ptr a i) (Suc n) (Ptr b j) h =
        uninitialized_copy_n T (Ptr a (Suc i)) n (Ptr b (Suc j)) ?h1"
    using c ih by simp
  also note ih[unfolded sp]
  finally show ?case by simp
qed

lemma copy_n_blocks:
  "a \<noteq> b \<Longrightarrow> slots_at h a = Some sl \<Longrightarrow> slots_at h b = Some dl \<Longrightarrow>
   i + n \<le> length sl \<Longrightarrow> j + n \<le> length dl \<Longrightarrow>
   (\<forall>k<n. sl ! (i + k) \<noteq> None \<and> \<not> copy_assign_throws T (the (sl ! (i + k)))) \<Longrightarrow>
   (\<forall>k<n. dl ! (j + k) \<noteq> None) \<Longrightarrow>
   copy_n T (Ptr a i) n (Ptr b j) h =
     (Inr (), h\<lparr>blocks := (blocks h)[b := Block (take j dl @ take n (drop i sl) @ drop (j + n) dl)]\<rparr>)"
proof (induction n arbitrary: i j dl h)
  case 0
  then show ?case by simp
next
  case (Suc n)
  from Suc.prems(6)[rule_format, of 0] obtain x where
    x: "sl ! i = Some x" and nt: "\<not> copy_assign_throws T x" by auto
  from Suc.prems(7)[rule_format, of 0] have dst: "dl ! j \<noteq> None" by simp
  let ?dl1 = "dl[j := Some x]"
  let ?h1 = "h\<lparr>blocks := (blocks h)[b := Block ?dl1]\<rparr>"
  have c: "copy_assign T (Ptr b j) (Ptr a i) h = (Inr (), ?h1)"
    using copy_assign_blocks[OF Suc.prems(1,2,3) _ _ x nt dst] Suc.prems(4,5) by simp
  have b: "b < length (blocks h)" using slots_at_SomeD[OF Suc.prems(3)] by simp
  have sa: "slots_at ?h1 a = Some sl" using Suc.prems(1,2) by simp
  have sb: "slots_at ?h1 b = Some ?dl1" using b by simp
  have rest: "\<forall>k<n. sl ! (Suc i + k) \<noteq> None \<and> \<not> copy_assign_throws T (the (sl ! (Suc i + k)))"
    using Suc.prems(6) by auto
  have live: "\<forall>k<n. ?dl1 ! (Suc j + k) \<noteq> None"
    using Suc.prems(7) by (auto simp: nth_list_update)
  have ih: "copy_n T (Ptr a (Suc i)) n (Ptr b (Suc j)) ?h1 =
     (Inr (), ?h1\<lparr>blocks := (blocks ?h1)[b := Block (take (Suc j) ?dl1 @ take n (drop (Suc i) sl)
                       @ drop (Suc j + n) ?dl1)]\<rparr>)"
    using Suc.IH[OF Suc.prems(1) sa sb _ _ rest live] Suc.prems(4,5) by simp
  have sp: "take (Suc j) ?dl1 @ take n (drop (Suc i) sl) @ drop (Suc j + n) ?dl1 =
            take j dl @ take (Suc n) (drop i sl) @ drop (j + Suc n) dl"
    using splice_step[of i sl j dl "Some x" n] Suc.prems(4,5) x by simp
  have "copy_n T (Ptr a i) (Suc n) (Ptr b j) h = copy_n T (Ptr a (Suc i)) n (Ptr b (Suc j)) ?h1"
    using c by simp
  also note ih[unfolded sp]
  finally show ?case by simp
qed

lemma wf_vector_frame:
  assumes "wf_vector h v"
    and "\<And>a. buffer_m (data_m v) = Ptr a 0 \<Longrightarrow> slots_at h' a = slots_at h a"
  shows "wf_vector h' v \<and> elems h' v = elems h v"
  using assms(1)
proof (cases rule: wf_vector_cases)
  case null
  then show ?thesis by (simp add: wf_vector_def elems_def Size_def)
next
  case (block a sl)
  from assms(2)[OF block(1)] block(2) have s': "slots_at h' a = Some sl" by simp
  from elems_slots[OF block(1) s' block(4)] elems_slots[OF block(1,2,4)] assms(1) block(1,2) s'
  show ?thesis by (simp add: wf_vector_def)
qed

lemma Vector_copy_ctor_effect:
  assumes buf: "buffer_m (data_m w) = Ptr b 0" and sl: "slots_at h b = Some sl"
    and pos: "0 < size_m w" and len: "size_m w \<le> length sl"
    and ok: "\<forall>k<size_m w. sl ! k \<noteq> None \<and> \<not> copy_ctor_throws T (the (sl ! k))"
    and room: "size_m w \<le> budget h"
  shows "Vector_copy_ctor T w h =
     (Inr \<lparr>data_m = \<lparr>buffer_m = Ptr (length (blocks h)) 0, capacity_m = size_m w\<rparr>,
           size_m = size_m w\<rparr>,
      h\<lparr>blocks := blocks h @ [Block (take (size_m w) sl)], budget := budget h - size_m w,
        constructed := constructed h + size_m w\<rparr>)"
proof -
  let ?s = "size_m w"
  let ?nb = "length (blocks h)"
  let ?h1 = "h\<lparr>blocks := blocks h @ [Block (replicate ?s None)], budget := budget h - ?s\<rparr>"
  have sized: "RawMemory_sized ?s h = (Inr \<lparr>buffer_m = Ptr ?nb 0, capacity_m = ?s\<rparr>, ?h1)"
    using pos room by (simp add: RawMemory_sized_def Allocate_def operator_new_def)
  have b: "b < ?nb" using slots_at_SomeD[OF sl] by simp
  have sb: "slots_at ?h1 b = Some sl" using slots_at_SomeD[OF sl] by (simp add: slots_at_def nth_append)
  have sn: "slots_at ?h1 ?nb = Some (replicate ?s None)" by (simp add: slots_at_def)
  have ne: "b \<noteq> ?nb" using b by simp
  have cp: "uninitialized_copy_n T (Ptr b 0) ?s (Ptr ?nb 0) ?h1 =
     (Inr (), ?h1\<lparr>blocks := (blocks ?h1)[?nb := Block (take 0 (replicate ?s None) @ take ?s (drop 0 sl)
                       @ drop (0 + ?s) (replicate ?s None))],
                constructed := constructed ?h1 + ?s\<rparr>)"
    using uninitialized_copy_n_blocks[OF ne sb sn, of 0 ?s 0 T] len ok by simp
  show ?thesis
    using sized cp buf
    by (simp add: Vector_copy_ctor_def GetAddress_def)
qed

lemma Vector_dtor_null:
  "buffer_m (data_m v) = Null \<Longrightarrow> size_m v = 0 \<Longrightarrow> Vector_dtor v h = (Inr (), h)"
  by (simp add: Vector_dtor_def GetAddress_def RawMemory_dtor_def Deallocate_def)

lemma Vector_dtor_block:
  assumes buf: "buffer_m (data_m v) = Ptr a 0" and sl: "slots_at h a = Some sl"
    and len: "size_m v \<le> length sl" and live: "\<forall>k<size_m v. sl ! k \<noteq> None"
  shows "Vector_dtor v h =
     (Inr (), h\<lparr>blocks := (blocks h)[a := Freed], budget := budget h + length sl,
                destroyed := destroyed h + size_m v\<rparr>)"
proof -
  let ?l = "take 0 sl @ replicate (size_m v) None @ drop (0 + size_m v) sl"
  let ?h1 = "h\<lparr>blocks := (blocks h)[a := Block ?l], destroyed := destroyed h + size_m v\<rparr>"
  have d: "destroy_n (Ptr a 0) (size_m v) h = (Inr (), ?h1)"
    using destroy_n_live[OF sl, of 0 "size_m v"] len live by simp
  have a: "a < length (blocks h)" using slots_at_SomeD[OF sl] by simp
  have s1: "slots_at ?h1 a = Some ?l" using a by simp
  have "length ?l = length sl" using len by simp
  with d s1 show ?thesis
    using buf by (simp add: Vector_dtor_def GetAddress_def RawMemory_dtor_def Deallocate_def)
qed

lemma Vector_copy_assign_to_empty_source:
  assumes ne: "this \<noteq> rhs"
    and bufa: "buffer_m (data_m (vs ! this)) = Ptr a 0" and sla: "slots_at h a = Some sl"
    and lena: "size_m (vs ! this) \<le> length sl" and livea: "\<forall>k<size_m (vs ! this). sl ! k \<noteq> None"
    and zero: "size_m (vs ! rhs) = 0"
  shows "Vector_copy_assign T this rhs vs h =
     (Inr (), vs[this := (vs ! this)\<lparr>size_m := 0\<rparr>],
      h\<lparr>blocks := (blocks h)[a := Block (replicate (size_m (vs ! this)) None
                                          @ drop (size_m (vs ! this)) sl)],
        destroyed := destroyed h + size_m (vs ! this)\<rparr>)"
proof -
  have d: "destroy_n (Ptr a 0) (size_m (vs ! this)) h =
     (Inr (), h\<lparr>blocks := (blocks h)[a := Block (take 0 sl @ replicate (size_m (vs ! this)) None
                     @ drop (0 + size_m (vs ! this)) sl)],
        destroyed := destroyed h + size_m (vs ! this)\<rparr>)"
    using destroy_n_live[OF sla, of 0 "size_m (vs ! this)"] lena livea by simp
  show ?thesis
    using ne zero d bufa
    by (simp add: Vector_copy_assign_def Size_def Capacity_def RawMemory_Capacity_def
        Vector_begin_def GetAddress_def)
qed

lemma Vector_copy_assign_reuse_blocks:
  assumes ne: "this \<noteq> rhs"
    and bufa: "buffer_m (data_m (vs ! this)) = Ptr a 0" and sla: "slots_at h a = Some sl"
    and cap: "capacity_m (data_m (vs ! this)) = length sl"
    and lena: "size_m (vs ! this) \<le> length sl" and livea: "\<forall>k<size_m (vs ! this). sl ! k \<noteq> None"
    and bufb: "buffer_m (data_m (vs ! rhs)) = Ptr b 0" and slb: "slots_at h b = Some dl"
    and lenb: "size_m (vs ! rhs) \<le> length dl"
    and okb: "\<forall>k<size_m (vs ! rhs). dl ! k \<noteq> None \<and> \<not> copy_ctor_throws T (the (dl ! k)) \<and>
                \<not> copy_assign_throws T (the (dl ! k))"
    and ab: "a \<noteq> b" and fits: "size_m (vs ! rhs) \<le> length sl"
  shows "Vector_copy_assign T this rhs vs h =
     (Inr (), vs[this := (vs ! this)\<lparr>size_m := size_m (vs ! rhs)\<rparr>],
      h\<lparr>blocks := (blocks h)[a := Block
           (take (size_m (vs ! rhs)) dl @
            replicate (size_m (vs ! this) - size_m (vs ! rhs)) None @
            drop (max (size_m (vs ! this)) (size_m (vs ! rhs))) sl)],
        constructed := constructed h + (size_m (vs ! rhs) - size_m (vs ! this)),
        destroyed := destroyed h + (size_m (vs ! this) - size_m (vs ! rhs))\<rparr>)"
proof -
  let ?sA = "size_m (vs ! this)" and ?sB = "size_m (vs ! rhs)"
  define m where "m = min ?sB ?sA"
  let ?l1 = "take 0 sl @ take m (drop 0 dl) @ drop (0 + m) sl"
  let ?h1 = "h\<lparr>blocks := (blocks h)[a := Block ?l1]\<rparr>"
  have ba: "b \<noteq> a" using ab by simp
  have a: "a < length (blocks h)" using slots_at_SomeD[OF sla] by simp
  have c: "copy_n T (Ptr b 0) m (Ptr a 0) h = (Inr (), ?h1)"
    using copy_n_blocks[OF ba slb sla, of 0 m 0 T] lenb lena okb livea by (simp add: m_def)
  have s1a: "slots_at ?h1 a = Some ?l1" using a by simp
  have s1b: "slots_at ?h1 b = Some dl" using slb ab by simp
  have l1: "length ?l1 = length sl" using lena lenb by (simp add: m_def)
  show ?thesis
  proof (cases "?sB \<le> ?sA")
    case True
    then have m: "m = ?sB" by (simp add: m_def)
    have d: "destroy_n (Ptr a ?sB) (?sA - ?sB) ?h1 =
       (Inr (), ?h1\<lparr>blocks := (blocks ?h1)[a := Block (take ?sB ?l1 @ replicate (?sA - ?sB) None
                         @ drop (?sB + (?sA - ?sB)) ?l1)],
                  destroyed := destroyed ?h1 + (?sA - ?sB)\<rparr>)"
      using destroy_n_live[OF s1a, of ?sB "?sA - ?sB"] True lena lenb livea l1
      by (simp add: m nth_append)
    have fin: "take ?sB ?l1 @ replicate (?sA - ?sB) None @ drop (?sB + (?sA - ?sB)) ?l1 =
               take ?sB dl @ replicate (?sA - ?sB) None @ drop (max ?sA ?sB) sl"
      using True lenb by (simp add: m max_def)
    show ?thesis
      using ne c d[unfolded fin] bufa bufb True a fits unfolding m
      by (simp add: Vector_copy_assign_def Size_def Capacity_def RawMemory_Capacity_def
          Vector_begin_def GetAddress_def cap min_def Let_def)
  next
    case False
    then have m: "m = ?sA" by (simp add: m_def)
    have u: "uninitialized_copy_n T (Ptr b ?sA) (?sB - ?sA) (Ptr a ?sA) ?h1 =
       (Inr (), ?h1\<lparr>blocks := (blocks ?h1)[a := Block (take ?sA ?l1 @ take (?sB - ?sA) (drop ?sA dl)
                         @ drop (?sA + (?sB - ?sA)) ?l1)],
                  constructed := constructed ?h1 + (?sB - ?sA)\<rparr>)"
      using uninitialized_copy_n_blocks[OF ba s1b s1a, of ?sA "?sB - ?sA" ?sA T]
        False lenb fits okb l1 by simp
    have "take ?sA dl @ take (?sB - ?sA) (drop ?sA dl) = take ?sB dl"
      using False by (metis add_diff_inverse_nat take_add not_le less_imp_le_nat le_add_diff_inverse)
    then have fin: "take ?sA ?l1 @ take (?sB - ?sA) (drop ?sA dl) @ drop (?sA + (?sB - ?sA)) ?l1 =
               take ?sB dl @ replicate (?sA - ?sB) None @ drop (max ?sA ?sB) sl"
      using False lenb lena by (simp add: m max_def)
    show ?thesis
      using ne c u[unfolded fin] bufa bufb False a fits unfolding m
      by (simp add: Vector_copy_assign_def Size_def Capacity_def RawMemory_Capacity_def
          Vector_begin_def GetAddress_def cap min_def Let_def)
  qed
qed

lemma Vector_copy_assign_swap_blocks:
  assumes ne: "this \<noteq> rhs"
    and bufb: "buffer_m (data_m (vs ! rhs)) = Ptr b 0" and slb: "slots_at h b = Some dl"
    and lenb: "size_m (vs ! rhs) \<le> length dl"
    and okb: "\<forall>k<size_m (vs ! rhs). dl ! k \<noteq> None \<and> \<not> copy_ctor_throws T (the (dl ! k))"
    and grows: "capacity_m (data_m (vs ! this)) < size_m (vs ! rhs)"
    and room: "size_m (vs ! rhs) \<le> budget h"
  shows "buffer_m (data_m (vs ! this)) = Null \<Longrightarrow> size_m (vs ! this) = 0 \<Longrightarrow>
     Vector_copy_assign T this rhs vs h =
       (Inr (), vs[this := \<lparr>data_m = \<lparr>buffer_m = Ptr (length (blocks h)) 0,
                                        capacity_m = size_m (vs ! rhs)\<rparr>,
                             size_m = size_m (vs ! rhs)\<rparr>],
        h\<lparr>blocks := blocks h @ [Block (take (size_m (vs ! rhs)) dl)],
          budget := budget h - size_m (vs ! rhs),
          constructed := constructed h + size_m (vs ! rhs)\<rparr>)"
    and "buffer_m (data_m (vs ! this)) = Ptr a 0 \<Longrightarrow> slots_at h a = Some sl \<Longrightarrow>
     size_m (vs ! this) \<le> length sl \<Longrightarrow> \<forall>k<size_m (vs ! this). sl ! k \<noteq> None \<Longrightarrow>
     Vector_copy_assign T this rhs vs h =
       (Inr (), vs[this := \<lparr>data_m = \<lparr>buffer_m = Ptr (length (blocks h)) 0,
                                        capacity_m = size_m (vs ! rhs)\<rparr>,
                             size_m = size_m (vs ! rhs)\<rparr>],
        h\<lparr>blocks := (blocks h @ [Block (take (size_m (vs ! rhs)) dl)])[a := Freed],
          budget := budget h - size_m (vs ! rhs) + length sl,
          constructed := constructed h + size_m (vs ! rhs),
          destroyed := destroyed h + size_m (vs ! this)\<rparr>)"
proof -
  let ?sB = "size_m (vs ! rhs)"
  let ?h2 = "h\<lparr>blocks := blocks h @ [Block (take ?sB dl)], budget := budget h - ?sB,
               constructed := constructed h + ?sB\<rparr>"
  let ?c = "\<lparr>data_m = \<lparr>buffer_m = Ptr (length (blocks h)) 0, capacity_m = ?sB\<rparr>, size_m = ?sB\<rparr>"
  have pos: "0 < ?sB" using grows by simp
  have cc: "Vector_copy_ctor T (vs ! rhs) h = (Inr ?c, ?h2)"
    using Vector_copy_ctor_effect[OF bufb slb pos lenb okb room] .
  {
    assume null: "buffer_m (data_m (vs ! this)) = Null" "size_m (vs ! this) = 0"
    have sw: "Swap (vs ! this) ?c = (?c, vs ! this)" by (simp add: Swap_def RawMemory_Swap_def)
    show "Vector_copy_assign T this rhs vs h = (Inr (), vs[this := ?c], ?h2)"
      using ne grows cc sw Vector_dtor_null[OF null, of ?h2]
      by (simp add: Vector_copy_assign_def Size_def Capacity_def RawMemory_Capacity_def)
  }
  {
    assume bufa: "buffer_m (data_m (vs ! this)) = Ptr a 0" and sla: "slots_at h a = Some sl"
      and lena: "size_m (vs ! this) \<le> length sl" and livea: "\<forall>k<size_m (vs ! this). sl ! k \<noteq> None"
    have sw: "Swap (vs ! this) ?c = (?c, vs ! this)" by (simp add: Swap_def RawMemory_Swap_def)
    have s2: "slots_at ?h2 a = Some sl"
      using slots_at_SomeD[OF sla] by (simp add: slots_at_def nth_append)
    show "Vector_copy_assign T this rhs vs h =
       (Inr (), vs[this := ?c],
        h\<lparr>blocks := (blocks h @ [Block (take ?sB dl)])[a := Freed],
          budget := budget h - ?sB + length sl,
          constructed := constructed h + ?sB,
          destroyed := destroyed h + size_m (vs ! this)\<rparr>)"
      using ne grows cc sw Vector_dtor_block[OF bufa s2 lena livea]
      by (simp add: Vector_copy_assign_def Size_def Capacity_def RawMemory_Capacity_def)
  }
qed

lemma Vector_copy_ctor_throw:
  assumes "Vector_copy_ctor T w h = (Inl ElementThrow, h')" "0 < size_m w"
  shows "blocks h' = blocks h @ [Freed] \<and> budget h' = budget h"
proof -
  let ?s = "size_m w"
  let ?m = "\<lparr>buffer_m = Ptr (length (blocks h)) 0, capacity_m = ?s\<rparr>"
  let ?h1 = "h\<lparr>blocks := blocks h @ [Block (replicate ?s None)], budget := budget h - ?s\<rparr>"
  obtain r0 h0 where sized: "RawMemory_sized ?s h = (r0, h0)" by (metis prod.exhaust)
  from RawMemory_sized_new[OF sized assms(2)] assms(1) sized
  have room: "?s \<le> budget h" and sized': "RawMemory_sized ?s h = (Inr ?m, ?h1)"
    by (auto simp: Vector_copy_ctor_def)
  obtain r2 h2 where c: "uninitialized_copy_n T (GetAddress (data_m w)) ?s (GetAddress ?m) ?h1 = (r2, h2)"
    by (metis prod.exhaust)
  have sb: "same_but (length (blocks h)) ?h1 h2"
    using c by (auto simp: GetAddress_def dest: same_but_uninitialized_copy_n)
  from assms(1) sized' c have "h' = snd (RawMemory_dtor ?m h2)"
    by (auto simp: Vector_copy_ctor_def split: sum.splits)
  with release_new_block[OF sb room] show ?thesis by auto
qed

lemma Vector_dtor_errors: "Vector_dtor v h = (Inl e, h') \<Longrightarrow> e = Undefined"
  by (auto simp: Vector_dtor_def split: prod.splits sum.splits
      dest: destroy_n_errors RawMemory_dtor_errors)

lemma Vector_copy_assign_swap_throw:
  assumes "Vector_copy_assign T this rhs vs h = (Inl ElementThrow, ws, h')"
    and "Capacity (vs ! this) < Size (vs ! rhs)"
  shows "ws = vs \<and> blocks h' = blocks h @ [Freed] \<and> budget h' = budget h"
proof -
  have pos: "0 < size_m (vs ! rhs)" using assms(2) by (simp add: Size_def)
  obtain r1 h1 where c: "Vector_copy_ctor T (vs ! rhs) h = (r1, h1)" by (metis prod.exhaust)
  show ?thesis
  proof (cases r1)
    case (Inl e)
    with assms c have "e = ElementThrow" "ws = vs" "h' = h1"
      by (auto simp: Vector_copy_assign_def split: if_splits)
    with Vector_copy_ctor_throw[OF _ pos] c Inl show ?thesis by simp
  next
    case (Inr rhs_copy)
    with assms c show ?thesis
      by (auto simp: Vector_copy_assign_def split: if_splits prod.splits dest: Vector_dtor_errors)
  qed
qed

lemma elems_in_slots:
  assumes "buffer_m (data_m v) = Ptr a 0" "slots_at h a = Some sl" "size_m v \<le> length sl"
    and "k < size_m v"
  shows "the (sl ! k) \<in> set (elems h v)"
proof -
  have "take (size_m v) sl ! k \<in> set (take (size_m v) sl)"
    using assms(3,4) by (intro nth_mem) simp
  then have "sl ! k \<in> set (take (size_m v) sl)" using assms(4) by simp
  then show ?thesis by (simp add: elems_slots[OF assms(1,2,3)])
qed

lemma wf_vector_blockI:
  assumes "buffer_m (data_m v) = Ptr a 0" "slots_at h a = Some sl"
    "length sl = capacity_m (data_m v)" "size_m v \<le> length sl" "\<forall>k<size_m v. sl ! k \<noteq> None"
  shows "wf_vector h v"
  using assms by (simp add: wf_vector_def list_all_length)

lemma Erase_result:
  assumes wf: "wf_vector h v" and i: "i < Size v"
    and nothrow: "\<forall>x \<in> set (drop (Suc i) (elems h v)). \<not> move_assign_throws T x"
  shows "\<exists>p w h'. Erase T (ptr_add (Vector_begin v) i) v h = (Inr p, w, h') \<and>
           p = ptr_add (Vector_begin v) i \<and>
           elems h' w = take i (elems h v) @ drop (Suc i) (elems h v) \<and>
           Size w = Size v - 1 \<and> Capacity w = Capacity v \<and> Vector_begin w = Vector_begin v \<and>
           wf_vector h' w \<and> length (blocks h') = length (blocks h) \<and> budget h' = budget h \<and>
           constructed h' = constructed h \<and> destroyed h' = destroyed h + 1"
  using wf
proof (cases rule: wf_vector_cases)
  case null
  with i show ?thesis by (simp add: Size_def)
next
  case (block a sl)
  let ?s = "size_m v"
  let ?w = "v\<lparr>size_m := ?s - 1\<rparr>"
  let ?l = "take i sl @ take (?s - Suc i) (drop (Suc i) sl) @ None # drop ?s sl"
  let ?h' = "h\<lparr>blocks := (blocks h)[a := Block ?l], destroyed := destroyed h + 1\<rparr>"
  have i': "i < ?s" using i by (simp add: Size_def)
  have xs: "elems h v = map the (take ?s sl)" using elems_slots[OF block(1,2,4)] .
  have nt: "\<forall>k. Suc i \<le> k \<and> k < ?s \<longrightarrow> \<not> move_assign_throws T (the (sl ! k))"
  proof (intro allI impI)
    fix k assume k: "Suc i \<le> k \<and> k < ?s"
    then have "the (sl ! k) = elems h v ! k" using block(4) by (simp add: xs)
    moreover have "elems h v ! k \<in> set (drop (Suc i) (elems h v))"
      using k block(4) by (auto simp: xs in_set_conv_nth intro!: exI[of _ "k - Suc i"])
    ultimately show "\<not> move_assign_throws T (the (sl ! k))" using nothrow by simp
  qed
  have run: "Erase T (Ptr a i) v h = (Inr (Ptr a i), ?w, ?h')"
    using Erase_effect[OF block(1,2,4,5) i' nt] .
  have a: "a < length (blocks h)" using slots_at_SomeD[OF block(2)] by simp
  have sl': "slots_at ?h' a = Some ?l" using a by simp
  have len: "length ?l = length sl" using block(4) i' by simp
  have tk: "take (?s - 1) ?l = take i sl @ take (?s - Suc i) (drop (Suc i) sl)"
    using block(4) i' by simp
  have e1: "elems ?h' ?w = map the (take (?s - 1) ?l)"
  proof (rule elems_slots[where a = a, THEN trans])
    show "buffer_m (data_m ?w) = Ptr a 0" using block(1) by simp
    show "slots_at ?h' a = Some ?l" by (rule sl')
    show "size_m ?w \<le> length ?l" using block(4) len by simp
  qed simp
  have e2: "take i (elems h v) = map the (take i sl)"
    using i' by (simp add: xs take_map min_def)
  have e3: "drop (Suc i) (elems h v) = map the (take (?s - Suc i) (drop (Suc i) sl))"
    by (simp add: xs drop_map drop_take)
  have el: "elems ?h' ?w = take i (elems h v) @ drop (Suc i) (elems h v)"
    unfolding e1 tk e2 e3 by simp
  have p1: "list_all (\<lambda>s. s \<noteq> None) (take i sl)"
    using block(4,5) i' by (auto simp: list_all_length)
  have p2: "list_all (\<lambda>s. s \<noteq> None) (take (?s - Suc i) (drop (Suc i) sl))"
    using block(4,5) i' by (auto simp: list_all_length)
  have live': "list_all (\<lambda>s. s \<noteq> None) (take (?s - 1) ?l)"
    unfolding tk using p1 p2 by simp
  have wf': "wf_vector ?h' ?w"
    using block(1,3,4) a len live' by (simp add: wf_vector_def del: take_append)
  show ?thesis
    using run el wf' block(1)
    by (simp add: Vector_begin_def GetAddress_def Size_def Capacity_def RawMemory_Capacity_def)
qed

section \<open>Moving between and within blocks: the effect of Emplace\<close>


lemma slots_at_two [simp]:
  "slots_at (h\<lparr>blocks := (blocks h)[b := Block dl, a := Block sl]\<rparr>) c =
     (if c = a \<and> a < length (blocks h) then Some sl
      else if c = b \<and> b < length (blocks h) then Some dl else slots_at h c)"
  by (auto simp: slots_at_def nth_list_update)
























lemma length_elems [simp]: "length (elems h v) = Size v"
  by (simp add: elems_def)



section \<open>The claims\<close>




text \<open>
  In the first run of that witness, where the copy of an existing element throws, the
  counters show what the missing clean-up costs: the call constructed the new element
  and one copy and destroyed only the copy, so one object more than the vector has
  elements is alive, in a block that has been released.
\<close>

lemma Emplace_relocation_throw_leaves_new_element:
  "Emplace throwing_copy (Vector_end vec_pair) (Some 7) vec_pair heap_pair =
     (Inl ElementThrow, vec_pair,
      \<lparr>blocks = [Block [Some 5, Some (- 1)], Freed], budget = 98, constructed = 4,
       destroyed = 1\<rparr>) \<and>
   live_objects \<lparr>blocks = [Block [Some (5::int), Some (- 1)], Freed], budget = 98,
      constructed = 4, destroyed = 1\<rparr> = 3 \<and>
   live_objects heap_pair = 2 \<and> Size vec_pair = 2"
  by code_simp

text \<open>
  C3, for move assignment. The claim says that moving one \<^verbatim>\<open>RawMemory\<close> into
  another releases the destination's current block before it takes the source's pointer
  and capacity. Move assignment does not: after \<^verbatim>\<open>RawMemory a(1), b(1); a = std::move(b);\<close>
  the object \<open>a\<close> holds the block of \<open>b\<close>, \<open>b\<close> is empty, and the block \<open>a\<close> owned
  before (address \<open>0\<close>) is still allocated while no object points to it.
\<close>

theorem RawMemory_move_assign_keeps_block:
  "RawMemory_sized 1 empty_heap =
     (Inr \<lparr>buffer_m = Ptr 0 0, capacity_m = 1\<rparr>,
      \<lparr>blocks = [Block [None]], budget = 99, constructed = 0, destroyed = 0\<rparr>) \<and>
   RawMemory_sized 1 \<lparr>blocks = [Block [None]], budget = 99, constructed = 0, destroyed = 0\<rparr> =
     (Inr \<lparr>buffer_m = Ptr 1 0, capacity_m = 1\<rparr>,
      \<lparr>blocks = [Block [None], Block [None]], budget = 98, constructed = 0, destroyed = (0::nat)\<rparr>
        :: int heap) \<and>
   RawMemory_move_assign 0 1
       [\<lparr>buffer_m = Ptr 0 0, capacity_m = 1\<rparr>, \<lparr>buffer_m = Ptr 1 0, capacity_m = 1\<rparr>] =
     [\<lparr>buffer_m = Ptr 1 0, capacity_m = 1\<rparr>, \<lparr>buffer_m = Null, capacity_m = 0\<rparr>] \<and>
   slots_at (\<lparr>blocks = [Block [None], Block [None]], budget = 98, constructed = 0,
              destroyed = 0\<rparr> :: int heap) 0 = Some [None]"
  by (simp add: RawMemory_sized_def Allocate_def operator_new_def empty_heap_def
      RawMemory_move_assign_def slots_at_def)

text \<open>
  The part of C3 that holds: the move constructor deallocates the (null) buffer of the
  new object, takes the members of the source and leaves the source empty; move
  assignment between two objects takes the members and leaves the source empty.
\<close>

lemma RawMemory_move_ctor_steals:
  "RawMemory_move_ctor other h = (Inr (other, RawMemory_default), h)"
  by (simp add: RawMemory_move_ctor_def RawMemory_default_def Deallocate_def)

lemma RawMemory_move_assign_steals:
  "this \<noteq> rhs \<Longrightarrow> this < length ms \<Longrightarrow> rhs < length ms \<Longrightarrow>
   RawMemory_move_assign this rhs ms = ms[rhs := RawMemory_default, this := ms ! rhs]"
  by (auto simp: RawMemory_move_assign_def RawMemory_default_def Let_def nth_list_update
      intro!: nth_equalityI RawMemory.equality)

text \<open>
  C4. In a run of \<^verbatim>\<open>PushBack\<close> calls that starts from the empty vector and in which
  every call returns, \<^verbatim>\<open>Size()\<close> is \<open>k\<close> after the \<open>k\<close>-th call, and over each
  call the storage either stays as it is or is reallocated to capacity \<open>1\<close> (from
  capacity \<open>0\<close>) or to exactly twice the previous capacity.
\<close>

theorem PushBack_sizes_and_capacities:
  assumes "PushBack_run T xs Vector_default h = Inr vs"
  shows "length vs = length xs \<and>
         (\<forall>k < length xs.
            Size (vs ! k) = Suc k \<and> growth_step ((Vector_default # vs) ! k) (vs ! k))"
  using PushBack_run_steps[OF assms] by (simp add: Size_def Vector_default_def)

theorem PushBack_sizes_and_capacities_witness:
  "PushBack_run plain [ByCopy 1, ByMove 2, ByCopy 3, ByCopy 4, ByMove 5] Vector_default empty_heap =
     Inr [\<lparr>data_m = \<lparr>buffer_m = Ptr 0 0, capacity_m = 1\<rparr>, size_m = 1\<rparr>,
          \<lparr>data_m = \<lparr>buffer_m = Ptr 1 0, capacity_m = 2\<rparr>, size_m = 2\<rparr>,
          \<lparr>data_m = \<lparr>buffer_m = Ptr 2 0, capacity_m = 4\<rparr>, size_m = 3\<rparr>,
          \<lparr>data_m = \<lparr>buffer_m = Ptr 2 0, capacity_m = 4\<rparr>, size_m = 4\<rparr>,
          \<lparr>data_m = \<lparr>buffer_m = Ptr 3 0, capacity_m = 8\<rparr>, size_m = 5\<rparr>] \<and>
   Size \<lparr>data_m = \<lparr>buffer_m = Ptr 3 0, capacity_m = 8\<rparr>, size_m = 5\<rparr> = 5 \<and>
   growth_step Vector_default \<lparr>data_m = \<lparr>buffer_m = Ptr 0 0, capacity_m = 1\<rparr>, size_m = 1\<rparr> \<and>
   growth_step \<lparr>data_m = \<lparr>buffer_m = Ptr 2 0, capacity_m = 4\<rparr>, size_m = 3\<rparr>
               \<lparr>data_m = \<lparr>buffer_m = Ptr 2 0, capacity_m = 4\<rparr>, size_m = 4\<rparr> \<and>
   growth_step \<lparr>data_m = \<lparr>buffer_m = Ptr 2 0, capacity_m = 4\<rparr>, size_m = 4\<rparr>
               \<lparr>data_m = \<lparr>buffer_m = Ptr 3 0, capacity_m = 8\<rparr>, size_m = 5\<rparr>"
proof -
  have run: "PushBack_run plain [ByCopy 1, ByMove 2, ByCopy 3, ByCopy 4, ByMove 5]
                 Vector_default empty_heap =
     Inr [\<lparr>data_m = \<lparr>buffer_m = Ptr 0 0, capacity_m = 1\<rparr>, size_m = 1\<rparr>,
          \<lparr>data_m = \<lparr>buffer_m = Ptr 1 0, capacity_m = 2\<rparr>, size_m = 2\<rparr>,
          \<lparr>data_m = \<lparr>buffer_m = Ptr 2 0, capacity_m = 4\<rparr>, size_m = 3\<rparr>,
          \<lparr>data_m = \<lparr>buffer_m = Ptr 2 0, capacity_m = 4\<rparr>, size_m = 4\<rparr>,
          \<lparr>data_m = \<lparr>buffer_m = Ptr 3 0, capacity_m = 8\<rparr>, size_m = 5\<rparr>]"
    by code_simp
  from PushBack_sizes_and_capacities[OF run]
  have all: "\<And>k. k < 5 \<Longrightarrow>
      Size ([\<lparr>data_m = \<lparr>buffer_m = Ptr 0 0, capacity_m = 1\<rparr>, size_m = 1\<rparr>,
          \<lparr>data_m = \<lparr>buffer_m = Ptr 1 0, capacity_m = 2\<rparr>, size_m = 2\<rparr>,
          \<lparr>data_m = \<lparr>buffer_m = Ptr 2 0, capacity_m = 4\<rparr>, size_m = 3\<rparr>,
          \<lparr>data_m = \<lparr>buffer_m = Ptr 2 0, capacity_m = 4\<rparr>, size_m = 4\<rparr>,
          \<lparr>data_m = \<lparr>buffer_m = Ptr 3 0, capacity_m = 8\<rparr>, size_m = 5\<rparr>] ! k) = Suc k \<and>
      growth_step ((Vector_default #
         [\<lparr>data_m = \<lparr>buffer_m = Ptr 0 0, capacity_m = 1\<rparr>, size_m = 1\<rparr>,
          \<lparr>data_m = \<lparr>buffer_m = Ptr 1 0, capacity_m = 2\<rparr>, size_m = 2\<rparr>,
          \<lparr>data_m = \<lparr>buffer_m = Ptr 2 0, capacity_m = 4\<rparr>, size_m = 3\<rparr>,
          \<lparr>data_m = \<lparr>buffer_m = Ptr 2 0, capacity_m = 4\<rparr>, size_m = 4\<rparr>,
          \<lparr>data_m = \<lparr>buffer_m = Ptr 3 0, capacity_m = 8\<rparr>, size_m = 5\<rparr>]) ! k)
        ([\<lparr>data_m = \<lparr>buffer_m = Ptr 0 0, capacity_m = 1\<rparr>, size_m = 1\<rparr>,
          \<lparr>data_m = \<lparr>buffer_m = Ptr 1 0, capacity_m = 2\<rparr>, size_m = 2\<rparr>,
          \<lparr>data_m = \<lparr>buffer_m = Ptr 2 0, capacity_m = 4\<rparr>, size_m = 3\<rparr>,
          \<lparr>data_m = \<lparr>buffer_m = Ptr 2 0, capacity_m = 4\<rparr>, size_m = 4\<rparr>,
          \<lparr>data_m = \<lparr>buffer_m = Ptr 3 0, capacity_m = 8\<rparr>, size_m = 5\<rparr>] ! k)"
    by simp
  from all[of 0] all[of 3] all[of 4] run show ?thesis by simp
qed

text \<open>
  C5. \<^verbatim>\<open>Reserve(n)\<close> with \<open>n\<close> at most the capacity returns with the vector and the
  free store exactly as they were: same storage address, same capacity, same elements.
  And a \<^verbatim>\<open>Reserve(n)\<close> that has returned makes a second \<^verbatim>\<open>Reserve(n)\<close> change
  nothing, whatever \<open>n\<close> was.
\<close>

theorem Reserve_within_capacity_noop:
  "(n \<le> Capacity v \<longrightarrow> Reserve T n v h = (Inr (), v, h)) \<and>
   (Reserve T n v h = (Inr (), v1, h1) \<longrightarrow> Reserve T n v1 h1 = (Inr (), v1, h1))"
proof (intro conjI impI)
  assume "n \<le> Capacity v"
  then show "Reserve T n v h = (Inr (), v, h)" by (simp add: Reserve_def)
next
  assume "Reserve T n v h = (Inr (), v1, h1)"
  then have "n \<le> Capacity v1" by (rule Reserve_capacity_ge)
  then show "Reserve T n v1 h1 = (Inr (), v1, h1)" by (simp add: Reserve_def)
qed

theorem Reserve_within_capacity_noop_witness:
  "3 \<le> Capacity vec_1234 \<and>
   Reserve plain 3 vec_1234 heap_1234 = (Inr (), vec_1234, heap_1234) \<and>
   Reserve plain 8 vec_1234 heap_1234 =
     (Inr (), \<lparr>data_m = \<lparr>buffer_m = Ptr 1 0, capacity_m = 8\<rparr>, size_m = 4\<rparr>,
      \<lparr>blocks = [Freed, Block [Some 1, Some 2, Some 3, Some 4, None, None, None, None]],
       budget = 92, constructed = 8, destroyed = 4\<rparr>) \<and>
   Reserve plain 8 \<lparr>data_m = \<lparr>buffer_m = Ptr 1 0, capacity_m = 8\<rparr>, size_m = 4\<rparr>
      \<lparr>blocks = [Freed, Block [Some 1, Some 2, Some 3, Some 4, None, None, None, None]],
       budget = 92, constructed = 8, destroyed = 4\<rparr> =
     (Inr (), \<lparr>data_m = \<lparr>buffer_m = Ptr 1 0, capacity_m = 8\<rparr>, size_m = 4\<rparr>,
      \<lparr>blocks = [Freed, Block [Some 1, Some 2, Some 3, Some 4, None, None, None, None]],
       budget = 92, constructed = 8, destroyed = 4\<rparr>)"
proof -
  have small: "3 \<le> Capacity vec_1234"
    by (simp add: vec_1234_def Capacity_def RawMemory_Capacity_def)
  have grow: "Reserve plain 8 vec_1234 heap_1234 =
     (Inr (), \<lparr>data_m = \<lparr>buffer_m = Ptr 1 0, capacity_m = 8\<rparr>, size_m = 4\<rparr>,
      \<lparr>blocks = [Freed, Block [Some 1, Some 2, Some 3, Some 4, None, None, None, None]],
       budget = 92, constructed = 8, destroyed = 4\<rparr>)"
    by code_simp
  from Reserve_within_capacity_noop[of 3 vec_1234 plain heap_1234] small
       Reserve_within_capacity_noop[of 8 vec_1234 plain heap_1234] grow
  show ?thesis by simp
qed

text \<open>
  C9. Copy assignment of a vector to itself (\<^verbatim>\<open>this == &rhs\<close>) returns with every
  object and the whole free store as they were: no element is copied, constructed or
  destroyed, and size, capacity and storage address are unchanged.
\<close>

theorem Vector_copy_assign_self:
  "Vector_copy_assign T this this vs h = (Inr (), vs, h)"
  by (simp add: Vector_copy_assign_def)




text \<open>
  The exception is real: on an empty vector \<^verbatim>\<open>Erase(begin())\<close> returns with the size
  wrapped around, whatever the capacity is.
\<close>

lemma Erase_of_empty_breaks_size_within_capacity:
  "exec plain (Call_Erase 0 0) [Vector_default] empty_heap =
     (Inr (), [Vector_default\<lparr>size_m := SIZE_MAX\<rparr>], empty_heap\<lparr>destroyed := 1\<rparr>) \<and>
   Capacity (Vector_default\<lparr>size_m := SIZE_MAX\<rparr>) < Size (Vector_default\<lparr>size_m := SIZE_MAX\<rparr>)"
  by (simp add: on_object_def Erase_def std_move_def Vector_default_def RawMemory_default_def
      Size_def Capacity_def RawMemory_Capacity_def Vector_begin_def Vector_end_def GetAddress_def
      SIZE_MAX_def empty_heap_def Let_def)

text \<open>
  C2 fails on move assignment onto a non-empty vector. The run
  \<^verbatim>\<open>Vector<T> a(2); Vector<T> b(1); a = std::move(b);\<close> constructs three objects and
  destroys none, while the two vectors together have one element; destroying both
  vectors afterwards destroys that one element, and the two objects \<open>a\<close> held before
  the assignment stay alive in a block that no vector owns.
\<close>

theorem move_assign_leaks_elements:
  "exec_all plain [New_sized 2, New_sized 1, Assign_move 0 1] [] empty_heap =
     (Inr (),
      [\<lparr>data_m = \<lparr>buffer_m = Ptr 1 0, capacity_m = 1\<rparr>, size_m = 1\<rparr>,
       \<lparr>data_m = \<lparr>buffer_m = Null, capacity_m = 0\<rparr>, size_m = 0\<rparr>],
      \<lparr>blocks = [Block [Some 0, Some 0], Block [Some 0]], budget = 97,
       constructed = 3, destroyed = 0\<rparr>) \<and>
   live_objects \<lparr>blocks = [Block [Some 0, Some 0], Block [Some 0]], budget = 97,
       constructed = 3, destroyed = (0::nat)\<rparr> = 3 \<and>
   total_size [\<lparr>data_m = \<lparr>buffer_m = Ptr 1 0, capacity_m = 1\<rparr>, size_m = 1\<rparr>,
       \<lparr>data_m = \<lparr>buffer_m = Null, capacity_m = 0\<rparr>, size_m = 0\<rparr>] = 1 \<and>
   Vector_dtor \<lparr>data_m = \<lparr>buffer_m = Ptr 1 0, capacity_m = 1\<rparr>, size_m = 1\<rparr>
      \<lparr>blocks = [Block [Some 0, Some 0], Block [Some 0]], budget = 97,
       constructed = 3, destroyed = 0\<rparr> =
     (Inr (), \<lparr>blocks = [Block [Some (0::int), Some 0], Freed], budget = 98,
       constructed = 3, destroyed = 1\<rparr>) \<and>
   Vector_dtor \<lparr>data_m = \<lparr>buffer_m = Null, capacity_m = 0\<rparr>, size_m = 0\<rparr>
      \<lparr>blocks = [Block [Some (0::int), Some 0], Freed], budget = 98,
       constructed = 3, destroyed = 1\<rparr> =
     (Inr (), \<lparr>blocks = [Block [Some 0, Some 0], Freed], budget = 98,
       constructed = 3, destroyed = 1\<rparr>) \<and>
   live_objects \<lparr>blocks = [Block [Some (0::int), Some 0], Freed], budget = 98,
       constructed = 3, destroyed = 1\<rparr> = 2"
  by code_simp

text \<open>
  C7. Let \<open>v\<close> be a well-formed vector and \<open>i\<close> an index below its size, and let the
  move assignments of the elements behind \<open>i\<close> not throw. Then \<^verbatim>\<open>Erase(begin() + i)\<close>
  returns; the elements are the old ones without the one at \<open>i\<close>, in order; the size
  is one less; capacity and storage address are unchanged and no block is allocated or
  released; exactly one object is destroyed and none is constructed.
\<close>

theorem Erase_closes_gap:
  assumes wf: "wf_vector h v" and i: "i < Size v"
    and nothrow: "\<forall>x \<in> set (drop (Suc i) (elems h v)). \<not> move_assign_throws T x"
  shows "\<exists>p w h'. Erase T (ptr_add (Vector_begin v) i) v h = (Inr p, w, h') \<and>
           elems h' w = take i (elems h v) @ drop (Suc i) (elems h v) \<and>
           Size w = Size v - 1 \<and> Capacity w = Capacity v \<and> Vector_begin w = Vector_begin v \<and>
           wf_vector h' w \<and> length (blocks h') = length (blocks h) \<and> budget h' = budget h \<and>
           constructed h' = constructed h \<and> destroyed h' = destroyed h + 1"
  using Erase_result[OF wf i nothrow] by blast

theorem Erase_closes_gap_witness:
  "wf_vector heap_1234 vec_1234 \<and> 1 < Size vec_1234 \<and>
   elems heap_1234 vec_1234 = [1, 2, 3, 4] \<and>
   Erase plain (ptr_add (Vector_begin vec_1234) 1) vec_1234 heap_1234 =
     (Inr (Ptr 0 1), \<lparr>data_m = \<lparr>buffer_m = Ptr 0 0, capacity_m = 4\<rparr>, size_m = 3\<rparr>,
      \<lparr>blocks = [Block [Some 1, Some 3, Some 4, None]], budget = 96, constructed = 4,
       destroyed = 1\<rparr>) \<and>
   elems \<lparr>blocks = [Block [Some 1, Some 3, Some 4, None]], budget = 96, constructed = 4,
       destroyed = 1\<rparr> \<lparr>data_m = \<lparr>buffer_m = Ptr 0 0, capacity_m = 4\<rparr>, size_m = 3\<rparr> =
     [1, 3, 4 :: int] \<and>
   Size \<lparr>data_m = \<lparr>buffer_m = Ptr 0 0, capacity_m = 4\<rparr>, size_m = 3\<rparr> = 3 \<and>
   Capacity \<lparr>data_m = \<lparr>buffer_m = Ptr 0 0, capacity_m = 4\<rparr>, size_m = 3\<rparr> = Capacity vec_1234"
proof -
  have wf: "wf_vector heap_1234 vec_1234" by code_simp
  have i: "1 < Size vec_1234" by code_simp
  have el: "elems heap_1234 vec_1234 = [1, 2, 3, 4]" by code_simp
  have nt: "\<forall>x \<in> set (drop (Suc 1) (elems heap_1234 vec_1234)). \<not> move_assign_throws plain x"
    by (simp add: plain_def)
  have run: "Erase plain (ptr_add (Vector_begin vec_1234) 1) vec_1234 heap_1234 =
     (Inr (Ptr 0 1), \<lparr>data_m = \<lparr>buffer_m = Ptr 0 0, capacity_m = 4\<rparr>, size_m = 3\<rparr>,
      \<lparr>blocks = [Block [Some 1, Some 3, Some 4, None]], budget = 96, constructed = 4,
       destroyed = 1\<rparr>)"
    by code_simp
  from Erase_closes_gap[OF wf i nt] run el wf i show ?thesis
    by (auto simp: Size_def vec_1234_def)
qed

text \<open>
  C6. Let \<open>a\<close> (at position \<open>this\<close>) and \<open>b\<close> (at position \<open>rhs\<close>) be two
  different, well-formed vectors that do not share a block, and take the outcome of
  \<^verbatim>\<open>a = b\<close>. If no copy of an element of \<open>b\<close> throws (and, where a new block is
  needed, the allocation succeeds), the call returns, only \<open>a\<close> is changed, \<open>a\<close> has
  the elements and the size of \<open>b\<close>, and \<open>b\<close> is as before. When the size of \<open>b\<close>
  exceeds the capacity of \<open>a\<close>, \<open>a\<close> gets a new block of exactly that capacity, every
  element of \<open>b\<close> is copy-constructed once and every old element of \<open>a\<close> is destroyed;
  otherwise \<open>a\<close> keeps its storage, as many objects are constructed as \<open>b\<close> is
  longer and as many destroyed as \<open>b\<close> is shorter. And when, in the first case, a
  copy construction throws, all vectors and the elements of \<open>a\<close> are as before the call
  and the new block has been released; in the second case the size of \<open>a\<close> is set
  last, so a call that does not return leaves every vector object as it was.
\<close>

theorem Vector_copy_assign_copies:
  assumes ne: "this \<noteq> rhs" and lt: "this < length vs" "rhs < length vs"
    and wfa: "wf_vector h (vs ! this)" and wfb: "wf_vector h (vs ! rhs)"
    and sep: "separate (vs ! this) (vs ! rhs)"
    and run: "Vector_copy_assign T this rhs vs h = (r, ws, h')"
  shows "((\<forall>x \<in> set (elems h (vs ! rhs)). \<not> copy_ctor_throws T x \<and> \<not> copy_assign_throws T x) \<and>
          (Capacity (vs ! this) < Size (vs ! rhs) \<longrightarrow> Size (vs ! rhs) \<le> budget h) \<longrightarrow>
            r = Inr () \<and> ws = vs[this := ws ! this] \<and>
            elems h' (ws ! this) = elems h (vs ! rhs) \<and> Size (ws ! this) = Size (vs ! rhs) \<and>
            wf_vector h' (ws ! this) \<and>
            wf_vector h' (vs ! rhs) \<and> elems h' (vs ! rhs) = elems h (vs ! rhs) \<and>
            (if Capacity (vs ! this) < Size (vs ! rhs)
             then Capacity (ws ! this) = Size (vs ! rhs) \<and>
                  constructed h' = constructed h + Size (vs ! rhs) \<and>
                  destroyed h' = destroyed h + Size (vs ! this)
             else data_m (ws ! this) = data_m (vs ! this) \<and>
                  length (blocks h') = length (blocks h) \<and>
                  constructed h' = constructed h + (Size (vs ! rhs) - Size (vs ! this)) \<and>
                  destroyed h' = destroyed h + (Size (vs ! this) - Size (vs ! rhs)))) \<and>
         (Capacity (vs ! this) < Size (vs ! rhs) \<and> r = Inl ElementThrow \<longrightarrow>
            ws = vs \<and> wf_vector h' (vs ! this) \<and> elems h' (vs ! this) = elems h (vs ! this) \<and>
            blocks h' = blocks h @ [Freed] \<and> budget h' = budget h) \<and>
         (Size (vs ! rhs) \<le> Capacity (vs ! this) \<and> r \<noteq> Inr () \<longrightarrow> ws = vs)"
proof -
  have kept: "Size (vs ! rhs) \<le> Capacity (vs ! this) \<and> r \<noteq> Inr () \<longrightarrow> ws = vs"
    using run ne
    by (auto simp: Vector_copy_assign_def Let_def split: prod.splits sum.splits if_splits)
  have thrown: "Capacity (vs ! this) < Size (vs ! rhs) \<and> r = Inl ElementThrow \<longrightarrow>
            ws = vs \<and> wf_vector h' (vs ! this) \<and> elems h' (vs ! this) = elems h (vs ! this) \<and>
            blocks h' = blocks h @ [Freed] \<and> budget h' = budget h"
  proof (rule impI)
    assume "Capacity (vs ! this) < Size (vs ! rhs) \<and> r = Inl ElementThrow"
    with Vector_copy_assign_swap_throw[of T this rhs vs h ws h'] run
    have *: "ws = vs" "blocks h' = blocks h @ [Freed]" "budget h' = budget h" by simp_all
    from wf_vector_append_blocks[OF wfa *(2)] *
    show "ws = vs \<and> wf_vector h' (vs ! this) \<and> elems h' (vs ! this) = elems h (vs ! this) \<and>
          blocks h' = blocks h @ [Freed] \<and> budget h' = budget h" by simp
  qed
  let ?A = "vs ! this" and ?B = "vs ! rhs"
  let ?sA = "size_m ?A" and ?sB = "size_m ?B"
  let ?goal = "r = Inr () \<and> ws = vs[this := ws ! this] \<and>
            elems h' (ws ! this) = elems h ?B \<and> Size (ws ! this) = Size ?B \<and>
            wf_vector h' (ws ! this) \<and>
            wf_vector h' ?B \<and> elems h' ?B = elems h ?B \<and>
            (if Capacity ?A < Size ?B
             then Capacity (ws ! this) = Size ?B \<and>
                  constructed h' = constructed h + Size ?B \<and>
                  destroyed h' = destroyed h + Size ?A
             else data_m (ws ! this) = data_m ?A \<and>
                  length (blocks h') = length (blocks h) \<and>
                  constructed h' = constructed h + (Size ?B - Size ?A) \<and>
                  destroyed h' = destroyed h + (Size ?A - Size ?B))"
  have returned: "?goal" if good: "(\<forall>x \<in> set (elems h ?B). \<not> copy_ctor_throws T x \<and> \<not> copy_assign_throws T x) \<and>
          (Capacity ?A < Size ?B \<longrightarrow> Size ?B \<le> budget h)"
  proof (cases "?sB = 0")
    case zero: True
    from wfb zero have eB: "elems h ?B = []" by (simp add: elems_def Size_def)
    from wfa show ?thesis
    proof (cases rule: wf_vector_cases)
      case null
      with ne zero run have res: "r = Inr ()" "ws = vs[this := ?A\<lparr>size_m := 0\<rparr>]" "h' = h"
        by (auto simp: Vector_copy_assign_def Size_def Capacity_def RawMemory_Capacity_def
            Vector_begin_def GetAddress_def)
      have same: "?A\<lparr>size_m := 0\<rparr> = ?A" using null by simp
      from res same lt wfa wfb zero null eB show ?thesis
        by (simp add: Size_def Capacity_def RawMemory_Capacity_def elems_def)
    next
      case (block a sl)
      let ?l = "replicate ?sA None @ drop ?sA sl"
      let ?h' = "h\<lparr>blocks := (blocks h)[a := Block ?l], destroyed := destroyed h + ?sA\<rparr>"
      from Vector_copy_assign_to_empty_source[OF ne block(1,2,4,5) zero, of T] run
      have res: "r = Inr ()" "ws = vs[this := ?A\<lparr>size_m := 0\<rparr>]" "h' = ?h'" by simp_all
      have a: "a < length (blocks h)" using slots_at_SomeD[OF block(2)] by simp
      have sl': "slots_at ?h' a = Some ?l" using a by simp
      have wfA': "wf_vector ?h' (?A\<lparr>size_m := 0\<rparr>)"
        using block(1,3,4) a by (simp add: wf_vector_def)
      have "\<And>b. buffer_m (data_m ?B) = Ptr b 0 \<Longrightarrow> slots_at ?h' b = slots_at h b"
        using sep block(1) by (auto simp: separate_def)
      from wf_vector_frame[OF wfb this]
      have B': "wf_vector ?h' ?B" "elems ?h' ?B = elems h ?B" by simp_all
      from res lt zero wfA' B' eB show ?thesis
        by (simp add: Size_def Capacity_def RawMemory_Capacity_def elems_def)
    qed
  next
    case pos: False
    from wfb pos obtain b dl where bufb: "buffer_m (data_m ?B) = Ptr b 0"
      and slb: "slots_at h b = Some dl" and lenb: "?sB \<le> length dl"
      and liveb: "\<forall>k<?sB. dl ! k \<noteq> None"
      by (cases rule: wf_vector_cases) auto
    have okb: "\<forall>k<?sB. dl ! k \<noteq> None \<and> \<not> copy_ctor_throws T (the (dl ! k)) \<and>
                \<not> copy_assign_throws T (the (dl ! k))"
      using liveb good elems_in_slots[OF bufb slb lenb] by blast
    then have okb': "\<forall>k<?sB. dl ! k \<noteq> None \<and> \<not> copy_ctor_throws T (the (dl ! k))" by blast
    have eB: "elems h ?B = map the (take ?sB dl)" using elems_slots[OF bufb slb lenb] .
    have b: "b < length (blocks h)" using slots_at_SomeD[OF slb] by simp
    show ?thesis
    proof (cases "Capacity ?A < Size ?B")
      case grows: True
      then have grows': "capacity_m (data_m ?A) < ?sB"
        by (simp add: Size_def Capacity_def RawMemory_Capacity_def)
      from good grows have room: "?sB \<le> budget h" by (simp add: Size_def)
      let ?nb = "length (blocks h)"
      let ?c = "\<lparr>data_m = \<lparr>buffer_m = Ptr ?nb 0, capacity_m = ?sB\<rparr>, size_m = ?sB\<rparr>"
      note sw = Vector_copy_assign_swap_blocks[OF ne bufb slb lenb okb' grows' room]
      from wfa show ?thesis
      proof (cases rule: wf_vector_cases)
        case null
        let ?h' = "h\<lparr>blocks := blocks h @ [Block (take ?sB dl)], budget := budget h - ?sB,
                     constructed := constructed h + ?sB\<rparr>"
        from sw(1)[OF null(1,3)] run have res: "r = Inr ()" "ws = vs[this := ?c]" "h' = ?h'"
          by simp_all
        have sn: "slots_at ?h' ?nb = Some (take ?sB dl)" by (simp add: slots_at_def)
        have wfc: "wf_vector ?h' ?c"
          by (rule wf_vector_blockI[OF _ sn]) (use lenb liveb in auto)
        have ec: "elems ?h' ?c = elems h ?B"
          using elems_slots[of ?c ?nb ?h' "take ?sB dl"] sn lenb by (simp add: eB)
        have "\<And>b'. buffer_m (data_m ?B) = Ptr b' 0 \<Longrightarrow> slots_at ?h' b' = slots_at h b'"
          using bufb b by (simp add: slots_at_def nth_append)
        from wf_vector_frame[OF wfb this]
        have B': "wf_vector ?h' ?B" "elems ?h' ?B = elems h ?B" by simp_all
        from res lt grows wfc ec B' null show ?thesis
          by (simp add: Size_def Capacity_def RawMemory_Capacity_def)
      next
        case (block a sl)
        let ?h' = "h\<lparr>blocks := (blocks h @ [Block (take ?sB dl)])[a := Freed],
                     budget := budget h - ?sB + length sl,
                     constructed := constructed h + ?sB,
                     destroyed := destroyed h + ?sA\<rparr>"
        from sw(2)[OF block(1,2,4,5)] run have res: "r = Inr ()" "ws = vs[this := ?c]" "h' = ?h'"
          by simp_all
        have a: "a < ?nb" using slots_at_SomeD[OF block(2)] by simp
        have ab: "a \<noteq> b" using sep block(1) bufb by (simp add: separate_def)
        have sn: "slots_at ?h' ?nb = Some (take ?sB dl)" using a by (simp add: slots_at_def)
        have wfc: "wf_vector ?h' ?c"
          by (rule wf_vector_blockI[OF _ sn]) (use lenb liveb in auto)
        have ec: "elems ?h' ?c = elems h ?B"
          using elems_slots[of ?c ?nb ?h' "take ?sB dl"] sn lenb by (simp add: eB)
        have "\<And>b'. buffer_m (data_m ?B) = Ptr b' 0 \<Longrightarrow> slots_at ?h' b' = slots_at h b'"
          using bufb b ab by (simp add: slots_at_def nth_append nth_list_update)
        from wf_vector_frame[OF wfb this]
        have B': "wf_vector ?h' ?B" "elems ?h' ?B = elems h ?B" by simp_all
        from res lt grows wfc ec B' show ?thesis
          by (simp add: Size_def Capacity_def RawMemory_Capacity_def)
      qed
    next
      case fits: False
      then have fits': "?sB \<le> capacity_m (data_m ?A)"
        by (simp add: Size_def Capacity_def RawMemory_Capacity_def)
      from wfa pos this obtain a sl where bufa: "buffer_m (data_m ?A) = Ptr a 0"
        and sla: "slots_at h a = Some sl" and cap: "length sl = capacity_m (data_m ?A)"
        and lena: "?sA \<le> length sl" and livea: "\<forall>k<?sA. sl ! k \<noteq> None"
        by (cases rule: wf_vector_cases) auto
      have ab: "a \<noteq> b" using sep bufa bufb by (simp add: separate_def)
      let ?l = "take ?sB dl @ replicate (?sA - ?sB) None @ drop (max ?sA ?sB) sl"
      let ?h' = "h\<lparr>blocks := (blocks h)[a := Block ?l],
                   constructed := constructed h + (?sB - ?sA),
                   destroyed := destroyed h + (?sA - ?sB)\<rparr>"
      let ?A' = "?A\<lparr>size_m := ?sB\<rparr>"
      from Vector_copy_assign_reuse_blocks[OF ne bufa sla cap[symmetric] lena livea bufb slb lenb okb ab]
        fits' cap run
      have res: "r = Inr ()" "ws = vs[this := ?A']" "h' = ?h'" by simp_all
      have a: "a < length (blocks h)" using slots_at_SomeD[OF sla] by simp
      have sl': "slots_at ?h' a = Some ?l" using a by simp
      have ll: "length ?l = length sl" using lenb lena fits' cap by (simp add: max_def)
      have tk: "take ?sB ?l = take ?sB dl" using lenb by simp
      have wfA': "wf_vector ?h' ?A'"
      proof (rule wf_vector_blockI[OF _ sl'])
        show "\<forall>k<size_m ?A'. ?l ! k \<noteq> None" using liveb lenb by (simp add: nth_append)
      qed (use bufa ll cap fits' in auto)
      have "elems ?h' ?A' = map the (take (size_m ?A') ?l)"
        by (rule elems_slots[OF _ sl']) (use bufa ll fits' cap in auto)
      then have eA': "elems ?h' ?A' = elems h ?B"
        using tk by (simp add: eB)
      have "\<And>b'. buffer_m (data_m ?B) = Ptr b' 0 \<Longrightarrow> slots_at ?h' b' = slots_at h b'"
        using bufb ab by simp
      from wf_vector_frame[OF wfb this]
      have B': "wf_vector ?h' ?B" "elems ?h' ?B = elems h ?B" by simp_all
      from res lt fits wfA' eA' B' show ?thesis
        by (simp add: Size_def Capacity_def RawMemory_Capacity_def)
    qed
  qed
  from returned thrown kept show ?thesis by blast
qed

theorem Vector_copy_assign_copies_witness:
  "Vector_copy_assign plain 0 1 [vec_1234, vec_7] heap_two =
     (Inr (), [\<lparr>data_m = \<lparr>buffer_m = Ptr 0 0, capacity_m = 4\<rparr>, size_m = 1\<rparr>, vec_7],
      \<lparr>blocks = [Block [Some 7, None, None, None], Block [Some 7, None]], budget = 94,
       constructed = 5, destroyed = 3\<rparr>) \<and>
   elems \<lparr>blocks = [Block [Some 7, None, None, None], Block [Some 7, None]], budget = 94,
       constructed = 5, destroyed = 3\<rparr>
       \<lparr>data_m = \<lparr>buffer_m = Ptr 0 0, capacity_m = 4\<rparr>, size_m = 1\<rparr> = elems heap_two vec_7 \<and>
   Vector_copy_assign plain 1 0 [vec_1234, vec_7] heap_two =
     (Inr (), [vec_1234, \<lparr>data_m = \<lparr>buffer_m = Ptr 2 0, capacity_m = 4\<rparr>, size_m = 4\<rparr>],
      \<lparr>blocks = [Block [Some 1, Some 2, Some 3, Some 4], Freed,
                 Block [Some 1, Some 2, Some 3, Some 4]],
       budget = 92, constructed = 9, destroyed = 1\<rparr>) \<and>
   elems \<lparr>blocks = [Block [Some 1, Some 2, Some 3, Some 4], Freed,
                 Block [Some 1, Some 2, Some 3, Some 4]],
       budget = 92, constructed = 9, destroyed = 1\<rparr>
       \<lparr>data_m = \<lparr>buffer_m = Ptr 2 0, capacity_m = 4\<rparr>, size_m = 4\<rparr> = elems heap_two vec_1234 \<and>
   Vector_copy_assign throwing_copy 1 0 [vec_pair, Vector_default] heap_pair =
     (Inl ElementThrow, [vec_pair, Vector_default],
      \<lparr>blocks = [Block [Some 5, Some (- 1)], Freed], budget = 98, constructed = 3,
       destroyed = 1\<rparr>) \<and>
   wf_vector \<lparr>blocks = [Block [Some (5::int), Some (- 1)], Freed], budget = 98, constructed = 3,
       destroyed = 1\<rparr> Vector_default"
proof -
  have wf0: "wf_vector heap_two vec_1234" and wf1: "wf_vector heap_two vec_7"
    and sep01: "separate vec_1234 vec_7" and sep10: "separate vec_7 vec_1234"
    by code_simp+
  have run01: "Vector_copy_assign plain 0 1 [vec_1234, vec_7] heap_two =
     (Inr (), [\<lparr>data_m = \<lparr>buffer_m = Ptr 0 0, capacity_m = 4\<rparr>, size_m = 1\<rparr>, vec_7],
      \<lparr>blocks = [Block [Some 7, None, None, None], Block [Some 7, None]], budget = 94,
       constructed = 5, destroyed = 3\<rparr>)"
    by code_simp
  have run10: "Vector_copy_assign plain 1 0 [vec_1234, vec_7] heap_two =
     (Inr (), [vec_1234, \<lparr>data_m = \<lparr>buffer_m = Ptr 2 0, capacity_m = 4\<rparr>, size_m = 4\<rparr>],
      \<lparr>blocks = [Block [Some 1, Some 2, Some 3, Some 4], Freed,
                 Block [Some 1, Some 2, Some 3, Some 4]],
       budget = 92, constructed = 9, destroyed = 1\<rparr>)"
    by code_simp
  have good01: "(\<forall>x \<in> set (elems heap_two vec_7).
                   \<not> copy_ctor_throws plain x \<and> \<not> copy_assign_throws plain x) \<and>
                (Capacity vec_1234 < Size vec_7 \<longrightarrow> Size vec_7 \<le> budget heap_two)"
    by (simp add: plain_def vec_1234_def vec_7_def Size_def Capacity_def RawMemory_Capacity_def)
  have good10: "(\<forall>x \<in> set (elems heap_two vec_1234).
                   \<not> copy_ctor_throws plain x \<and> \<not> copy_assign_throws plain x) \<and>
                (Capacity vec_7 < Size vec_1234 \<longrightarrow> Size vec_1234 \<le> budget heap_two)"
    by (simp add: plain_def vec_1234_def vec_7_def Size_def Capacity_def RawMemory_Capacity_def
        heap_two_def)
  have wfp: "wf_vector heap_pair vec_pair" and wfd: "wf_vector heap_pair Vector_default"
    and sepd: "separate Vector_default vec_pair"
    by code_simp+
  have runt: "Vector_copy_assign throwing_copy 1 0 [vec_pair, Vector_default] heap_pair =
     (Inl ElementThrow, [vec_pair, Vector_default],
      \<lparr>blocks = [Block [Some 5, Some (- 1)], Freed], budget = 98, constructed = 3,
       destroyed = 1\<rparr>)"
    by code_simp
  have grows: "Capacity Vector_default < Size vec_pair" by code_simp
  have a: "elems \<lparr>blocks = [Block [Some 7, None, None, None], Block [Some 7, None]], budget = 94,
       constructed = 5, destroyed = 3\<rparr>
       \<lparr>data_m = \<lparr>buffer_m = Ptr 0 0, capacity_m = 4\<rparr>, size_m = 1\<rparr> = elems heap_two vec_7"
    using Vector_copy_assign_copies[of 0 1 "[vec_1234, vec_7]" heap_two plain, OF _ _ _ _ _ _ run01]
      wf0 wf1 sep01 good01 by simp
  have b: "elems \<lparr>blocks = [Block [Some 1, Some 2, Some 3, Some 4], Freed,
                 Block [Some 1, Some 2, Some 3, Some 4]],
       budget = 92, constructed = 9, destroyed = 1\<rparr>
       \<lparr>data_m = \<lparr>buffer_m = Ptr 2 0, capacity_m = 4\<rparr>, size_m = 4\<rparr> = elems heap_two vec_1234"
    using Vector_copy_assign_copies[of 1 0 "[vec_1234, vec_7]" heap_two plain, OF _ _ _ _ _ _ run10]
      wf0 wf1 sep10 good10 by simp
  have c: "wf_vector \<lparr>blocks = [Block [Some (5::int), Some (- 1)], Freed], budget = 98,
       constructed = 3, destroyed = 1\<rparr> Vector_default"
    using Vector_copy_assign_copies[of 1 0 "[vec_pair, Vector_default]" heap_pair throwing_copy,
        OF _ _ _ _ _ _ runt] wfp wfd sepd grows by simp
  from a b c run01 run10 runt show ?thesis by simp
qed



end
